theory Spec2Isabelle
  imports Main "HOL-Library.AList" "HOL-Library.Sublist"
begin

section \<open>Presence registry of the chat gateway (chat.gateway.ts)\<close>

text \<open>
  The gateway keeps two JavaScript maps: \<open>userSockets : Map<string, Set<string>>\<close> and
  \<open>socketUsers : Map<string, string>\<close>. A JavaScript \<open>Map\<close> and \<open>Set\<close> iterate in insertion
  order, so both are association lists here: \<open>AList.update\<close> overwrites a present key in
  place and appends an absent one (\<open>Map.set\<close>), \<open>AList.delete\<close> drops the key
  (\<open>Map.delete\<close>), \<open>map_of\<close> is \<open>Map.get\<close>. A \<open>Set\<close> is a list without repetition:
  \<open>set_add\<close> appends an absent element, \<open>removeAll\<close> is \<open>Set.delete\<close>.
\<close>

record Gateway =
  userSockets :: "(string \<times> string list) list"
  socketUsers :: "(string \<times> string) list"

definition emptyGateway :: Gateway where
  "emptyGateway = \<lparr> userSockets = [], socketUsers = [] \<rparr>"

definition set_add :: "'a \<Rightarrow> 'a list \<Rightarrow> 'a list" where
  "set_add x xs = (if x \<in> set xs then xs else xs @ [x])"

text \<open>What the gateway sends, and to whom. \<open>server.emit\<close> addresses every client,
  \<open>server.to(room)\<close> a room, \<open>server.to(socketId)\<close> and \<open>client.emit\<close> one socket.\<close>

datatype target = ToAll | ToRoom string | ToSocket string

datatype presence_effect =
    UserOnline string "string list"
  | UserOffline string "string list"
  | ErrorRequired string
  | DisconnectClient string
  | DeliveryBackfill string

definition getOnlineUserIds :: "Gateway \<Rightarrow> string list" where
  "getOnlineUserIds g = map fst (userSockets g)"

definition isUserOnline :: "Gateway \<Rightarrow> string \<Rightarrow> bool" where
  "isUserOnline g userId = (map_of (userSockets g) userId \<noteq> None)"

text \<open>\<open>handleConnection\<close>: \<open>query\<close> is \<open>client.handshake.query.userId\<close>, absent (\<open>None\<close>) or a
  string; the empty string is falsy as well. The delivery backfill is started without being
  awaited, before the \<open>userOnline\<close> broadcast.\<close>

definition handleConnection :: "string \<Rightarrow> string option \<Rightarrow> Gateway \<Rightarrow> Gateway \<times> presence_effect list" where
  "handleConnection clientId query g =
     (case query of
        None \<Rightarrow> (g, [ErrorRequired clientId, DisconnectClient clientId])
      | Some userId \<Rightarrow>
          if userId = [] then (g, [ErrorRequired clientId, DisconnectClient clientId])
          else
            let su = AList.update clientId userId (socketUsers g);
                us0 = (if map_of (userSockets g) userId = None
                       then AList.update userId [] (userSockets g) else userSockets g);
                us1 = AList.update userId (set_add clientId (the (map_of us0 userId))) us0;
                g' = \<lparr> userSockets = us1, socketUsers = su \<rparr>
            in (g', [DeliveryBackfill userId, UserOnline userId (getOnlineUserIds g')]))"

definition handleDisconnect :: "string \<Rightarrow> Gateway \<Rightarrow> Gateway \<times> presence_effect list" where
  "handleDisconnect clientId g =
     (case map_of (socketUsers g) clientId of
        None \<Rightarrow> (g, [])
      | Some userId \<Rightarrow>
          if userId = [] then (g, [])
          else
            (case map_of (userSockets g) userId of
               None \<Rightarrow> (g\<lparr> socketUsers := AList.delete clientId (socketUsers g) \<rparr>, [])
             | Some userSocketSet \<Rightarrow>
                 let s' = removeAll clientId userSocketSet in
                 if length s' = 0 then
                   let g1 = g\<lparr> userSockets := AList.delete userId (userSockets g) \<rparr> in
                   (g1\<lparr> socketUsers := AList.delete clientId (socketUsers g) \<rparr>,
                    [UserOffline userId (getOnlineUserIds g1)])
                 else
                   (g\<lparr> userSockets := AList.update userId s' (userSockets g),
                      socketUsers := AList.delete clientId (socketUsers g) \<rparr>, [])))"

text \<open>A run of the gateway: connection and disconnection events in the order they arrive,
  from the empty registry.\<close>

datatype gw_event = Connect string "string option" | Disconnect string

fun gw_step :: "gw_event \<Rightarrow> Gateway \<Rightarrow> Gateway" where
  "gw_step (Connect c q) g = fst (handleConnection c q g)"
| "gw_step (Disconnect c) g = fst (handleDisconnect c g)"

definition gw_run :: "gw_event list \<Rightarrow> Gateway" where
  "gw_run evs = fold gw_step evs emptyGateway"

definition offline_event_for :: "string \<Rightarrow> presence_effect \<Rightarrow> bool" where
  "offline_event_for u e = (case e of UserOffline v _ \<Rightarrow> v = u | _ \<Rightarrow> False)"


section \<open>The durable store (entities and repositories)\<close>

text \<open>
  The enums and entities of \<open>message.entity.ts\<close>, \<open>message-deletion.entity.ts\<close>,
  \<open>conversation.entity.ts\<close> and \<open>conversation-participant.entity.ts\<close>. A table is the
  list of its rows in insertion order, a nullable column an \<open>option\<close>, a date a natural
  number (a clock reading handed to the operation as \<open>now\<close>). Field names carry a suffix
  where two entities share a name (\<open>_m\<close> message, \<open>_d\<close> deletion, \<open>_p\<close> participant,
  \<open>_c\<close> conversation). Columns that no operation below reads or writes (\<open>updatedAt\<close>,
  the role and nickname of a participant, the name and category of a conversation, the
  generated key of a deletion row) are left out.
\<close>

datatype MessageStatus = SENDING | SENT | DELIVERED | READ

datatype MessageType = TEXT | IMAGE | FILE | VIDEO | AUDIO | SYSTEM

record Message =
  id_m :: string
  conversationId :: string
  senderId :: string
  content :: "string option"
  type_m :: MessageType
  fileUrl :: "string option"
  fileName :: "string option"
  fileMimeType :: "string option"
  fileSize :: "int option"
  status :: MessageStatus
  isDeleted :: bool
  replyToMessageId :: "string option"
  forwardedFromId :: "string option"
  editedAt :: "nat option"
  createdAt :: nat

record MessageDeletion =
  messageId_d :: string
  userId_d :: string
  deletedAt :: nat

record ConversationParticipant =
  conversationId_p :: string
  userId_p :: string
  lastReadAt :: "nat option"

record Conversation =
  id_c :: string
  lastMessageId :: "string option"
  lastMessageContent :: "string option"
  lastMessageSenderId :: "string option"
  lastMessageType :: "MessageType option"
  lastMessageAt :: "nat option"

record Store =
  messages :: "Message list"
  deletions :: "MessageDeletion list"
  participants :: "ConversationParticipant list"
  conversations :: "Conversation list"

text \<open>The exceptions the services throw.\<close>

datatype error =
    NotFoundException
  | ForbiddenException
  | BadRequestException
  | InternalServerErrorException

text \<open>The position of a status on the line SENDING, SENT, DELIVERED, READ of the enum.\<close>

fun status_rank :: "MessageStatus \<Rightarrow> nat" where
  "status_rank SENDING = 0"
| "status_rank SENT = 1"
| "status_rank DELIVERED = 2"
| "status_rank READ = 3"

text \<open>\<open>repository.findOne({ where: { id } })\<close>, \<open>repository.save\<close> of a loaded entity
  (the row with its key is overwritten) and \<open>repository.remove\<close>.\<close>

definition findOneMessage :: "Store \<Rightarrow> string \<Rightarrow> Message option" where
  "findOneMessage st messageId = find (\<lambda>m. id_m m = messageId) (messages st)"

definition saveLoaded :: "Message \<Rightarrow> Store \<Rightarrow> Store" where
  "saveLoaded m st = st\<lparr> messages := map (\<lambda>r. if id_m r = id_m m then m else r) (messages st) \<rparr>"

definition removeMessage :: "Message \<Rightarrow> Store \<Rightarrow> Store" where
  "removeMessage m st = st\<lparr> messages := filter (\<lambda>r. id_m r \<noteq> id_m m) (messages st) \<rparr>"

text \<open>\<open>ORDER BY createdAt ASC / DESC\<close> with \<open>take\<close> and \<open>skip\<close>. SQL leaves the order of rows
  with equal \<open>createdAt\<close> open; the SQLite engine of the default configuration returns them
  in table order in both directions, and so do both sorts here (each is stable).\<close>

definition orderAsc :: "Message list \<Rightarrow> Message list" where
  "orderAsc ms = sort_key createdAt ms"

definition orderDesc :: "Message list \<Rightarrow> Message list" where
  "orderDesc ms = sort_key (\<lambda>m. - int (createdAt m)) ms"

section \<open>ConversationsService (membership resolver)\<close>

definition isParticipant :: "Store \<Rightarrow> string \<Rightarrow> string \<Rightarrow> bool" where
  "isParticipant st conversationId' userId =
     (find (\<lambda>p. conversationId_p p = conversationId' \<and> userId_p p = userId) (participants st) \<noteq> None)"

definition findByUserId :: "Store \<Rightarrow> string \<Rightarrow> Conversation list" where
  "findByUserId st userId =
     (let participations = filter (\<lambda>p. userId_p p = userId) (participants st);
          conversationIds' = map conversationId_p participations
      in if length conversationIds' = 0 then []
         else filter (\<lambda>c. id_c c \<in> set conversationIds') (conversations st))"

definition getParticipantUserIds :: "Store \<Rightarrow> string \<Rightarrow> string list" where
  "getParticipantUserIds st conversationId' =
     map userId_p (filter (\<lambda>p. conversationId_p p = conversationId') (participants st))"

definition updateLastRead :: "string \<Rightarrow> string \<Rightarrow> nat \<Rightarrow> Store \<Rightarrow> Store" where
  "updateLastRead conversationId' userId now st =
     st\<lparr> participants :=
           map (\<lambda>p. if conversationId_p p = conversationId' \<and> userId_p p = userId
                     then p\<lparr> lastReadAt := Some now \<rparr> else p) (participants st) \<rparr>"

definition updateLastMessage ::
  "string \<Rightarrow> string \<Rightarrow> string option \<Rightarrow> string \<Rightarrow> MessageType \<Rightarrow> nat \<Rightarrow> Store \<Rightarrow> Store" where
  "updateLastMessage conversationId' messageId content' senderId' type' now st =
     st\<lparr> conversations :=
           map (\<lambda>c. if id_c c = conversationId'
                     then c\<lparr> lastMessageId := Some messageId,
                             lastMessageContent := content',
                             lastMessageSenderId := Some senderId',
                             lastMessageType := Some type',
                             lastMessageAt := Some now \<rparr>
                     else c) (conversations st) \<rparr>"

section \<open>MessagesService (messages.service.ts)\<close>

text \<open>
  Every operation that writes takes the store and returns its result together with the store
  it leaves behind, so that what was written before an exception is visible; a query that
  only reads returns its result alone. \<open>newId\<close> is the key the database generates for an
  inserted row, \<open>now\<close> the clock.
\<close>

record CreateMessageDto =
  conversationId_dto :: string
  senderId_dto :: string
  content_dto :: "string option"
  type_dto :: MessageType
  fileUrl_dto :: "string option"
  fileName_dto :: "string option"
  fileMimeType_dto :: "string option"
  fileSize_dto :: "int option"
  replyToMessageId_dto :: "string option"

text \<open>
  \<open>String.prototype.trim\<close>. A \<open>string\<close> holds the UTF-8 bytes of the JavaScript string, so
  each character that JavaScript counts as white space or line terminator is the byte
  sequence of its code point: U+0009 to U+000D, U+0020, U+00A0, U+1680, U+2000 to U+200A,
  U+2028, U+2029, U+202F, U+205F, U+3000 and U+FEFF. \<open>stripLeading\<close> removes such sequences
  from the front for as long as one is there; every step removes at least one byte, so the
  length of the string bounds the number of steps. \<open>trim\<close> strips both ends.
  \<open>blank\<close> is JavaScript's \<open>!s?.trim()\<close>: true for an absent string and for one that trims to
  the empty string.
\<close>

definition whiteSpaces :: "string list" where
  "whiteSpaces =
     [[CHR 0x09], [CHR 0x0A], [CHR 0x0B], [CHR 0x0C], [CHR 0x0D], [CHR 0x20],
      [CHR 0xC2, CHR 0xA0],
      [CHR 0xE1, CHR 0x9A, CHR 0x80],
      [CHR 0xE2, CHR 0x80, CHR 0x80], [CHR 0xE2, CHR 0x80, CHR 0x81],
      [CHR 0xE2, CHR 0x80, CHR 0x82], [CHR 0xE2, CHR 0x80, CHR 0x83],
      [CHR 0xE2, CHR 0x80, CHR 0x84], [CHR 0xE2, CHR 0x80, CHR 0x85],
      [CHR 0xE2, CHR 0x80, CHR 0x86], [CHR 0xE2, CHR 0x80, CHR 0x87],
      [CHR 0xE2, CHR 0x80, CHR 0x88], [CHR 0xE2, CHR 0x80, CHR 0x89],
      [CHR 0xE2, CHR 0x80, CHR 0x8A],
      [CHR 0xE2, CHR 0x80, CHR 0xA8], [CHR 0xE2, CHR 0x80, CHR 0xA9],
      [CHR 0xE2, CHR 0x80, CHR 0xAF],
      [CHR 0xE2, CHR 0x81, CHR 0x9F],
      [CHR 0xE3, CHR 0x80, CHR 0x80],
      [CHR 0xEF, CHR 0xBB, CHR 0xBF]]"

fun stripLeading :: "string list \<Rightarrow> nat \<Rightarrow> string \<Rightarrow> string" where
  "stripLeading ws 0 s = s"
| "stripLeading ws (Suc n) s =
     (case find (\<lambda>w. prefix w s) ws of
        None \<Rightarrow> s
      | Some w \<Rightarrow> stripLeading ws n (drop (length w) s))"

definition trimStart :: "string \<Rightarrow> string" where
  "trimStart s = stripLeading whiteSpaces (length s) s"

definition trimEnd :: "string \<Rightarrow> string" where
  "trimEnd s = rev (stripLeading (map rev whiteSpaces) (length s) (rev s))"

definition trim :: "string \<Rightarrow> string" where
  "trim s = trimEnd (trimStart s)"

definition blank :: "string option \<Rightarrow> bool" where
  "blank s = (case s of None \<Rightarrow> True | Some t \<Rightarrow> trim t = [])"

definition validateMessageContent :: "CreateMessageDto \<Rightarrow> error option" where
  "validateMessageContent dto =
     (if type_dto dto = TEXT \<and> blank (content_dto dto) then Some BadRequestException
      else if (type_dto dto = IMAGE \<or> type_dto dto = FILE) \<and> blank (fileUrl_dto dto)
        then Some BadRequestException
      else None)"

definition saveMessage ::
  "CreateMessageDto \<Rightarrow> string \<Rightarrow> nat \<Rightarrow> Store \<Rightarrow> (error + Message) \<times> Store" where
  "saveMessage dto newId now st =
     (case validateMessageContent dto of
        Some e \<Rightarrow> (Inl e, st)
      | None \<Rightarrow>
          if \<not> isParticipant st (conversationId_dto dto) (senderId_dto dto)
          then (Inl ForbiddenException, st)
          else
            let savedMessage =
                  \<lparr> id_m = newId,
                    conversationId = conversationId_dto dto,
                    senderId = senderId_dto dto,
                    content = content_dto dto,
                    type_m = type_dto dto,
                    fileUrl = fileUrl_dto dto,
                    fileName = fileName_dto dto,
                    fileMimeType = fileMimeType_dto dto,
                    fileSize = fileSize_dto dto,
                    status = SENT,
                    isDeleted = False,
                    replyToMessageId = replyToMessageId_dto dto,
                    forwardedFromId = None,
                    editedAt = None,
                    createdAt = now \<rparr>;
                st1 = st\<lparr> messages := messages st @ [savedMessage] \<rparr>;
                st2 = updateLastMessage (conversationId savedMessage) (id_m savedMessage)
                        (content savedMessage) (senderId savedMessage) (type_m savedMessage) now st1
            in (Inr savedMessage, st2))"

definition findByConversationId ::
  "string \<Rightarrow> string \<Rightarrow> nat \<Rightarrow> nat \<Rightarrow> nat \<Rightarrow> Store \<Rightarrow> (error + Message list) \<times> Store" where
  "findByConversationId conversationId' userId limit offset now st =
     (if \<not> isParticipant st conversationId' userId then (Inl ForbiddenException, st)
      else
        let found = take limit (drop offset
                      (orderAsc (filter (\<lambda>m. conversationId m = conversationId') (messages st))))
        in (Inr found, updateLastRead conversationId' userId now st))"

definition updateStatus ::
  "string \<Rightarrow> MessageStatus \<Rightarrow> Store \<Rightarrow> (error + Message) \<times> Store" where
  "updateStatus messageId status' st =
     (case findOneMessage st messageId of
        None \<Rightarrow> (Inl NotFoundException, st)
      | Some message \<Rightarrow>
          let message' = message\<lparr> status := status' \<rparr>
          in (Inr message', saveLoaded message' st))"

text \<open>The two batch updates. The \<open>WHERE\<close> clause is a predicate on rows; \<open>affected\<close> is the
  number of rows it selects.\<close>

definition readEligible :: "string \<Rightarrow> string \<Rightarrow> Message \<Rightarrow> bool" where
  "readEligible conversationId' userId m =
     (conversationId m = conversationId' \<and> senderId m \<noteq> userId \<and> status m \<noteq> READ
      \<and> isDeleted m = False)"

definition markConversationAsRead :: "string \<Rightarrow> string \<Rightarrow> Store \<Rightarrow> nat \<times> Store" where
  "markConversationAsRead conversationId' userId st =
     (let affected = length (filter (readEligible conversationId' userId) (messages st));
          st' = st\<lparr> messages :=
                      map (\<lambda>m. if readEligible conversationId' userId m
                                then m\<lparr> status := READ \<rparr> else m) (messages st) \<rparr>
      in (affected, st'))"

record DeliveredResult =
  updatedCount :: nat
  conversationIds :: "string list"

definition sentFor :: "string list \<Rightarrow> string \<Rightarrow> Message \<Rightarrow> bool" where
  "sentFor conversationIds' userId m =
     (conversationId m \<in> set conversationIds' \<and> senderId m \<noteq> userId \<and> status m = SENT
      \<and> isDeleted m = False)"

definition markMessagesAsDeliveredForUser :: "string \<Rightarrow> Store \<Rightarrow> DeliveredResult \<times> Store" where
  "markMessagesAsDeliveredForUser userId st =
     (let conversationIds' = map id_c (findByUserId st userId) in
      if length conversationIds' = 0
      then (\<lparr> updatedCount = 0, conversationIds = [] \<rparr>, st)
      else
        let affectedConversationIds =
              remdups (map conversationId (filter (sentFor conversationIds' userId) (messages st)))
        in if length affectedConversationIds = 0
           then (\<lparr> updatedCount = 0, conversationIds = [] \<rparr>, st)
           else
             let affected = length (filter (sentFor conversationIds' userId) (messages st));
                 st' = st\<lparr> messages :=
                             map (\<lambda>m. if sentFor conversationIds' userId m
                                       then m\<lparr> status := DELIVERED \<rparr> else m) (messages st) \<rparr>
             in (\<lparr> updatedCount = affected, conversationIds = affectedConversationIds \<rparr>, st'))"

definition deleteMessage :: "string \<Rightarrow> string \<Rightarrow> Store \<Rightarrow> (error + unit) \<times> Store" where
  "deleteMessage messageId userId st =
     (case findOneMessage st messageId of
        None \<Rightarrow> (Inl NotFoundException, st)
      | Some message \<Rightarrow>
          if senderId message \<noteq> userId then (Inl ForbiddenException, st)
          else (Inr (), removeMessage message st))"

text \<open>
  Search. The query and the column are lower-cased by two different functions.

  The column goes through SQL \<open>LOWER\<close>. The model is of the default configuration, the SQLite
  engine, whose built-in \<open>LOWER\<close> folds the ASCII capitals and leaves every other byte as it
  is: \<open>sqlLower\<close>.

  The query goes through JavaScript's \<open>toLowerCase\<close>, which follows the Unicode case mapping.
  On a string of ASCII characters that is the fold of the ASCII capitals. On a string that
  holds any other character it is the mapping of the JavaScript runtime, which is not code of
  this repository: it is the parameter \<open>unicodeLower\<close>, handed down to the two search
  functions.

  \<open>like pattern subject\<close> is the SQL operator \<open>subject LIKE pattern\<close>: \<open>%\<close> stands for any run of
  characters and \<open>_\<close> for any single one; the other characters are compared exactly (SQLite
  also ignores the case of ASCII letters there, which changes nothing once the column is
  lower-cased and \<open>toLowerCase\<close> has left no ASCII capital in the pattern); an escape
  character is not modelled. A \<open>NULL\<close> content matches no pattern. What TypeORM does with
  \<open>take(0)\<close> differs between its versions and is left out: the statements about search take
  \<open>limit\<close> positive.
\<close>

definition lowerChar :: "char \<Rightarrow> char" where
  "lowerChar c = (let n = (of_char c :: nat) in if 65 \<le> n \<and> n \<le> 90 then char_of (n + 32) else c)"

definition sqlLower :: "string \<Rightarrow> string" where
  "sqlLower s = map lowerChar s"

definition isAscii :: "string \<Rightarrow> bool" where
  "isAscii s = list_all (\<lambda>c. (of_char c :: nat) < 128) s"

definition toLowerCase :: "(string \<Rightarrow> string) \<Rightarrow> string \<Rightarrow> string" where
  "toLowerCase unicodeLower s = (if isAscii s then map lowerChar s else unicodeLower s)"

fun like :: "string \<Rightarrow> string \<Rightarrow> bool" where
  "like [] s = (s = [])"
| "like (p # ps) [] = (p = CHR ''%'' \<and> like ps [])"
| "like (p # ps) (c # cs) =
     (if p = CHR ''%'' then like ps (c # cs) \<or> like (p # ps) cs
      else (p = CHR ''_'' \<or> p = c) \<and> like ps cs)"

definition contentLike :: "string \<Rightarrow> Message \<Rightarrow> bool" where
  "contentLike searchQuery m =
     (case content m of None \<Rightarrow> False | Some c \<Rightarrow> like searchQuery (sqlLower c))"

definition searchMessages ::
  "(string \<Rightarrow> string) \<Rightarrow> string \<Rightarrow> string \<Rightarrow> string \<Rightarrow> nat \<Rightarrow> Store
     \<Rightarrow> error + Message list" where
  "searchMessages unicodeLower conversationId' userId query limit st =
     (if \<not> isParticipant st conversationId' userId then Inl ForbiddenException
      else
        let searchQuery = [CHR ''%''] @ toLowerCase unicodeLower query @ [CHR ''%'']
        in Inr (take limit (orderDesc
                 (filter (\<lambda>m. conversationId m = conversationId' \<and> contentLike searchQuery m
                               \<and> isDeleted m = False) (messages st)))))"

definition searchMessagesGlobal ::
  "(string \<Rightarrow> string) \<Rightarrow> string \<Rightarrow> string \<Rightarrow> nat \<Rightarrow> Store \<Rightarrow> Message list" where
  "searchMessagesGlobal unicodeLower userId query limit st =
     (let conversationIds' = map id_c (findByUserId st userId) in
      if length conversationIds' = 0 then []
      else
        let searchQuery = [CHR ''%''] @ toLowerCase unicodeLower query @ [CHR ''%'']
        in take limit (orderDesc
             (filter (\<lambda>m. conversationId m \<in> set conversationIds' \<and> contentLike searchQuery m
                           \<and> isDeleted m = False) (messages st))))"

definition editMessage ::
  "string \<Rightarrow> string \<Rightarrow> string \<Rightarrow> nat \<Rightarrow> Store \<Rightarrow> (error + Message) \<times> Store" where
  "editMessage messageId userId newContent now st =
     (case findOneMessage st messageId of
        None \<Rightarrow> (Inl NotFoundException, st)
      | Some message \<Rightarrow>
          if senderId message \<noteq> userId then (Inl ForbiddenException, st)
          else if type_m message \<noteq> TEXT then (Inl BadRequestException, st)
          else if isDeleted message then (Inl BadRequestException, st)
          else
            let message' = message\<lparr> content := Some newContent, editedAt := Some now \<rparr>
            in (Inr message', saveLoaded message' st))"

definition deleteMessageForEveryone :: "string \<Rightarrow> string \<Rightarrow> Store \<Rightarrow> (error + unit) \<times> Store" where
  "deleteMessageForEveryone messageId userId st =
     (case findOneMessage st messageId of
        None \<Rightarrow> (Inl NotFoundException, st)
      | Some message \<Rightarrow>
          if senderId message \<noteq> userId then (Inl ForbiddenException, st)
          else (Inr (), saveLoaded (message\<lparr> isDeleted := True, content := None \<rparr>) st))"

definition deleteMessageForMe :: "string \<Rightarrow> string \<Rightarrow> nat \<Rightarrow> Store \<Rightarrow> (error + unit) \<times> Store" where
  "deleteMessageForMe messageId userId now st =
     (case findOneMessage st messageId of
        None \<Rightarrow> (Inl NotFoundException, st)
      | Some message \<Rightarrow>
          (case find (\<lambda>d. messageId_d d = messageId \<and> userId_d d = userId) (deletions st) of
             None \<Rightarrow>
               (Inr (), st\<lparr> deletions := deletions st @
                              [\<lparr> messageId_d = messageId, userId_d = userId, deletedAt = now \<rparr>] \<rparr>)
           | Some existing \<Rightarrow> (Inr (), st)))"

definition findByConversationIdFiltered ::
  "string \<Rightarrow> string \<Rightarrow> nat \<Rightarrow> nat \<Rightarrow> Store \<Rightarrow> Message list" where
  "findByConversationIdFiltered conversationId' userId limit offset st =
     (let deletedForMe = filter (\<lambda>d. userId_d d = userId) (deletions st);
          deletedMessageIds = map messageId_d deletedForMe;
          base = filter (\<lambda>m. conversationId m = conversationId' \<and> isDeleted m = False) (messages st);
          rows = (if length deletedMessageIds > 0
                  then filter (\<lambda>m. id_m m \<notin> set deletedMessageIds) base else base)
      in take limit (drop offset (orderAsc rows)))"

definition forwardMessage ::
  "string \<Rightarrow> string \<Rightarrow> string \<Rightarrow> string \<Rightarrow> nat \<Rightarrow> Store \<Rightarrow> (error + Message) \<times> Store" where
  "forwardMessage messageId userId targetConversationId newId now st =
     (case findOneMessage st messageId of
        None \<Rightarrow> (Inl NotFoundException, st)
      | Some originalMessage \<Rightarrow>
          if \<not> isParticipant st targetConversationId userId then (Inl ForbiddenException, st)
          else
            let saved =
                  \<lparr> id_m = newId,
                    conversationId = targetConversationId,
                    senderId = userId,
                    content = content originalMessage,
                    type_m = type_m originalMessage,
                    fileUrl = fileUrl originalMessage,
                    fileName = fileName originalMessage,
                    fileMimeType = fileMimeType originalMessage,
                    fileSize = fileSize originalMessage,
                    status = SENT,
                    isDeleted = False,
                    replyToMessageId = None,
                    forwardedFromId = Some messageId,
                    editedAt = None,
                    createdAt = now \<rparr>
            in (Inr saved, st\<lparr> messages := messages st @ [saved] \<rparr>))"

section \<open>Fan-out of a new message (chat.gateway.ts, messages.controller.ts)\<close>

record MessageResponseDto =
  id_r :: string
  conversationId_r :: string
  senderId_r :: string
  content_r :: "string option"
  type_r :: MessageType
  fileUrl_r :: "string option"
  fileName_r :: "string option"
  fileMimeType_r :: "string option"
  fileSize_r :: "int option"
  status_r :: MessageStatus
  replyToMessageId_r :: "string option"
  forwardedFromId_r :: "string option"
  editedAt_r :: "nat option"
  createdAt_r :: nat

record LastMessage =
  id_l :: string
  content_l :: "string option"
  type_l :: MessageType
  senderId_l :: string
  createdAt_l :: nat

datatype payload =
    NewMessagePayload MessageResponseDto
  | ConversationUpdatedPayload string LastMessage nat

datatype emission = Emit (emit_target: target) (emit_event: string) (emit_payload: payload)

definition toMessageResponse :: "Message \<Rightarrow> MessageResponseDto" where
  "toMessageResponse message =
     \<lparr> id_r = id_m message,
       conversationId_r = conversationId message,
       senderId_r = senderId message,
       content_r = content message,
       type_r = type_m message,
       fileUrl_r = fileUrl message,
       fileName_r = fileName message,
       fileMimeType_r = fileMimeType message,
       fileSize_r = fileSize message,
       status_r = status message,
       replyToMessageId_r = replyToMessageId message,
       forwardedFromId_r = forwardedFromId message,
       editedAt_r = editedAt message,
       createdAt_r = createdAt message \<rparr>"

definition room :: "string \<Rightarrow> string" where
  "room conversationId' = ''conversation:'' @ conversationId'"

definition sendToUser :: "Gateway \<Rightarrow> string \<Rightarrow> string \<Rightarrow> payload \<Rightarrow> emission list" where
  "sendToUser g userId event data =
     (case map_of (userSockets g) userId of
        None \<Rightarrow> []
      | Some userSocketSet \<Rightarrow> map (\<lambda>socketId. Emit (ToSocket socketId) event data) userSocketSet)"

text \<open>\<open>participantIds\<close> is an optional parameter: \<open>None\<close> when the caller leaves it out.\<close>

definition broadcastToConversation ::
  "Gateway \<Rightarrow> string \<Rightarrow> MessageResponseDto \<Rightarrow> string list option \<Rightarrow> nat \<Rightarrow> emission list" where
  "broadcastToConversation g conversationId' messageResponse participantIds now =
     Emit (ToRoom (room conversationId')) ''newMessage'' (NewMessagePayload messageResponse) #
     (case participantIds of
        None \<Rightarrow> []
      | Some ids \<Rightarrow>
          if length ids > 0 then
            concat (map (\<lambda>participantId.
              if participantId \<noteq> senderId_r messageResponse
              then sendToUser g participantId ''conversationUpdated''
                     (ConversationUpdatedPayload conversationId'
                        \<lparr> id_l = id_r messageResponse,
                          content_l = content_r messageResponse,
                          type_l = type_r messageResponse,
                          senderId_l = senderId_r messageResponse,
                          createdAt_l = createdAt_r messageResponse \<rparr> now)
              else []) ids)
          else [])"

text \<open>The number of events of one name that a list of emissions addresses to one target.\<close>

definition emitted :: "target \<Rightarrow> string \<Rightarrow> emission list \<Rightarrow> nat" where
  "emitted t event es = length (filter (\<lambda>e. emit_target e = t \<and> emit_event e = event) es)"

section \<open>Auxiliary predicates of the proofs\<close>

text \<open>Every socket set stored in \<open>userSockets\<close> has a member.\<close>

definition nonempty_sets :: "Gateway \<Rightarrow> bool" where
  "nonempty_sets g = (\<forall>u ss. map_of (userSockets g) u = Some ss \<longrightarrow> ss \<noteq> [])"

text \<open>A small store for concrete runs: Alice and Bob share conversation \<open>c1\<close>, Alice and
  Carol share \<open>c2\<close>; Alice has written to Bob and Bob has answered.\<close>

definition hello :: Message where
  "hello = \<lparr> id_m = ''m1'', conversationId = ''c1'', senderId = ''alice'',
     content = Some ''Hello Bob'', type_m = TEXT, fileUrl = None, fileName = None,
     fileMimeType = None, fileSize = None, status = SENT, isDeleted = False,
     replyToMessageId = None, forwardedFromId = None, editedAt = None, createdAt = 1 \<rparr>"

definition reply :: Message where
  "reply = \<lparr> id_m = ''m2'', conversationId = ''c1'', senderId = ''bob'',
     content = Some ''hello ALICE'', type_m = TEXT, fileUrl = None, fileName = None,
     fileMimeType = None, fileSize = None, status = SENT, isDeleted = False,
     replyToMessageId = Some ''m1'', forwardedFromId = None, editedAt = None, createdAt = 2 \<rparr>"

definition member :: "string \<Rightarrow> string \<Rightarrow> ConversationParticipant" where
  "member c u = \<lparr> conversationId_p = c, userId_p = u, lastReadAt = None \<rparr>"

definition emptyConversation :: "string \<Rightarrow> Conversation" where
  "emptyConversation c = \<lparr> id_c = c, lastMessageId = None, lastMessageContent = None,
     lastMessageSenderId = None, lastMessageType = None, lastMessageAt = None \<rparr>"

definition demoStore :: Store where
  "demoStore = \<lparr> messages = [hello, reply], deletions = [],
     participants = [member ''c1'' ''alice'', member ''c1'' ''bob'',
                     member ''c2'' ''alice'', member ''c2'' ''carol''],
     conversations = [emptyConversation ''c1'', emptyConversation ''c2''] \<rparr>"

text \<open>The delivery rule in the words of the specification: a message is eligible for a
  user when it is not globally deleted, not sent by this user, currently SENT, and in a
  conversation the user participates in.\<close>

definition eligibleForDelivery :: "Store \<Rightarrow> string \<Rightarrow> Message \<Rightarrow> bool" where
  "eligibleForDelivery st userId m =
     (isDeleted m = False \<and> senderId m \<noteq> userId \<and> status m = SENT
      \<and> isParticipant st (conversationId m) userId)"

text \<open>Referential integrity of the participant table (its foreign key): every participant
  row names a conversation that exists.\<close>

definition referential :: "Store \<Rightarrow> bool" where
  "referential st = list_all (\<lambda>p. conversationId_p p \<in> set (map id_c (conversations st))) (participants st)"

text \<open>The row as a global deletion leaves it: flagged deleted, content cleared, everything
  else (key, conversation, creation time) as before.\<close>

definition tombstone :: "string \<Rightarrow> Message \<Rightarrow> Message" where
  "tombstone messageId r = (if id_m r = messageId then r\<lparr> isDeleted := True, content := None \<rparr> else r)"

text \<open>The (message, user) pairs of the per-user deletion table.\<close>

definition deletionPairs :: "Store \<Rightarrow> (string \<times> string) list" where
  "deletionPairs st = map (\<lambda>d. (messageId_d d, userId_d d)) (deletions st)"

text \<open>More concrete inputs: a text message of blank content that Carol, who is not in \<open>c1\<close>,
  tries to send there; and the store after Alice has deleted her message for everyone.\<close>

definition blankText :: CreateMessageDto where
  "blankText = \<lparr> conversationId_dto = ''c1'', senderId_dto = ''carol'', content_dto = Some '' '',
     type_dto = TEXT, fileUrl_dto = None, fileName_dto = None, fileMimeType_dto = None,
     fileSize_dto = None, replyToMessageId_dto = None \<rparr>"

definition afterGlobalDelete :: Store where
  "afterGlobalDelete = snd (deleteMessageForEveryone ''m1'' ''alice'' demoStore)"



definition containsIgnoringCase :: "string \<Rightarrow> Message \<Rightarrow> bool" where
  "containsIgnoringCase q m =
     (case content m of None \<Rightarrow> False | Some c \<Rightarrow> sublist (map lowerChar q) (map lowerChar c))"

text \<open>The sockets stored for a user (\<open>userSockets.get(userId)\<close>, none when the key is
  absent), and the registry in which every socket id occurs once: the transport gives each
  connection its own id, so a socket belongs to one user and is listed once.\<close>

definition connectionsOf :: "Gateway \<Rightarrow> string \<Rightarrow> string list" where
  "connectionsOf g userId = (case map_of (userSockets g) userId of None \<Rightarrow> [] | Some ss \<Rightarrow> ss)"

definition registryOk :: "Gateway \<Rightarrow> bool" where
  "registryOk g = (distinct (map fst (userSockets g)) \<and> distinct (concat (map snd (userSockets g))))"

text \<open>The payload of the \<open>conversationUpdated\<close> notification built by
  \<open>broadcastToConversation\<close>.\<close>

definition notification :: "string \<Rightarrow> MessageResponseDto \<Rightarrow> nat \<Rightarrow> payload" where
  "notification c msg now =
     ConversationUpdatedPayload c
       \<lparr> id_l = id_r msg, content_l = content_r msg, type_l = type_r msg,
         senderId_l = senderId_r msg, createdAt_l = createdAt_r msg \<rparr> now"

text \<open>A registry for concrete runs: Alice on one device, Bob on two.\<close>

definition threeSockets :: Gateway where
  "threeSockets = gw_run [Connect ''s1'' (Some ''alice''), Connect ''s2'' (Some ''bob''),
                          Connect ''s3'' (Some ''bob'')]"

section \<open>Verified properties\<close>

subsection \<open>Presence registry\<close>

lemma set_add_nonempty: "set_add x xs \<noteq> []"
  by (auto simp: set_add_def)

lemma nonempty_sets_connect:
  "nonempty_sets g \<Longrightarrow> nonempty_sets (fst (handleConnection c q g))"
  by (auto simp: nonempty_sets_def handleConnection_def Let_def update_conv' set_add_nonempty
      split: option.splits if_splits)

lemma nonempty_sets_disconnect:
  "nonempty_sets g \<Longrightarrow> nonempty_sets (fst (handleDisconnect c g))"
  by (auto simp: nonempty_sets_def handleDisconnect_def Let_def update_conv' delete_conv'
      split: option.splits if_splits)

lemma nonempty_sets_fold:
  "nonempty_sets g \<Longrightarrow> nonempty_sets (fold gw_step evs g)"
proof (induction evs arbitrary: g)
  case Nil
  then show ?case by simp
next
  case (Cons e evs)
  have "nonempty_sets (gw_step e g)"
    using Cons.prems by (cases e) (simp_all add: nonempty_sets_connect nonempty_sets_disconnect)
  then show ?case using Cons.IH by simp
qed

lemma nonempty_sets_run: "nonempty_sets (gw_run evs)"
  unfolding gw_run_def
  by (rule nonempty_sets_fold) (simp add: nonempty_sets_def emptyGateway_def)

lemma removeAll_keeps_other: "s2 \<in> set ss \<Longrightarrow> s1 \<noteq> s2 \<Longrightarrow> removeAll s1 ss \<noteq> []"
proof
  assume a: "s2 \<in> set ss" "s1 \<noteq> s2" and e: "removeAll s1 ss = []"
  from a have "s2 \<in> set (removeAll s1 ss)" by simp
  with e show False by simp
qed

lemma disconnect_keeps_other:
  assumes "map_of (userSockets g) u = Some ss" "s2 \<in> set ss" "s1 \<noteq> s2"
  shows "isUserOnline (fst (handleDisconnect s1 g)) u"
    and "\<forall>e \<in> set (snd (handleDisconnect s1 g)). \<not> offline_event_for u e"
  using assms removeAll_keeps_other[of s2 ss s1]
  by (auto simp: handleDisconnect_def isUserOnline_def Let_def update_conv' delete_conv'
      offline_event_for_def split: option.splits if_splits)

lemma two_devices_run:
  "gw_run [Connect ''s1'' (Some ''alice''), Connect ''s2'' (Some ''alice'')] =
     \<lparr> userSockets = [(''alice'', [''s1'', ''s2''])],
       socketUsers = [(''s1'', ''alice''), (''s2'', ''alice'')] \<rparr>"
  by (simp add: gw_run_def emptyGateway_def handleConnection_def set_add_def Let_def)

text \<open>
  C3. In every state the registry reaches from the empty one by connection and
  disconnection events, a user is online exactly when a non-empty socket set is stored
  for them, no stored socket set is empty, and disconnecting one of two distinct sockets
  of a user leaves the user online and emits no \<open>userOffline\<close> for them.
\<close>

theorem presence_invariant:
  "(isUserOnline (gw_run evs) u \<longleftrightarrow>
      (\<exists>ss. map_of (userSockets (gw_run evs)) u = Some ss \<and> ss \<noteq> []))
   \<and> (\<forall>ss. map_of (userSockets (gw_run evs)) u = Some ss \<longrightarrow> ss \<noteq> [])
   \<and> (\<forall>ss s1 s2. map_of (userSockets (gw_run evs)) u = Some ss \<and> s1 \<in> set ss \<and> s2 \<in> set ss \<and> s1 \<noteq> s2
        \<longrightarrow> isUserOnline (fst (handleDisconnect s1 (gw_run evs))) u
            \<and> (\<forall>e \<in> set (snd (handleDisconnect s1 (gw_run evs))). \<not> offline_event_for u e))"
  using nonempty_sets_run[of evs] disconnect_keeps_other[of "gw_run evs" u]
  by (auto simp: nonempty_sets_def isUserOnline_def)

theorem presence_invariant_witness:
  "map_of (userSockets (gw_run [Connect ''s1'' (Some ''alice''), Connect ''s2'' (Some ''alice'')])) ''alice''
     = Some [''s1'', ''s2'']
   \<and> isUserOnline (gw_run [Connect ''s1'' (Some ''alice''), Connect ''s2'' (Some ''alice'')]) ''alice''
   \<and> isUserOnline (fst (handleDisconnect ''s1''
        (gw_run [Connect ''s1'' (Some ''alice''), Connect ''s2'' (Some ''alice'')]))) ''alice''
   \<and> list_all (\<lambda>e. \<not> offline_event_for ''alice'' e) (snd (handleDisconnect ''s1''
        (gw_run [Connect ''s1'' (Some ''alice''), Connect ''s2'' (Some ''alice'')])))"
proof -
  let ?g = "gw_run [Connect ''s1'' (Some ''alice''), Connect ''s2'' (Some ''alice'')]"
  have h: "map_of (userSockets ?g) ''alice'' = Some [''s1'', ''s2'']"
    by (simp add: two_devices_run)
  have m: "''s1'' \<in> set [''s1'', ''s2''] \<and> ''s2'' \<in> set [''s1'', ''s2''] \<and> ''s1'' \<noteq> ''s2''"
    by simp
  from presence_invariant[of "[Connect ''s1'' (Some ''alice''), Connect ''s2'' (Some ''alice'')]" "''alice''"] h m
  show ?thesis unfolding list_all_iff by blast
qed

subsection \<open>Message status\<close>

lemmas demo_defs = demoStore_def hello_def reply_def member_def emptyConversation_def

text \<open>
  C1. The claim that no sequence of \<open>updateStatus\<close>, \<open>markConversationAsRead\<close> and
  \<open>markMessagesAsDeliveredForUser\<close> moves a status backward fails on \<open>updateStatus\<close>, which
  stores whatever status it is given: after Bob has read Alice's message (READ), the call
  \<open>updateStatus m1 DELIVERED\<close> leaves it DELIVERED, an earlier status.
\<close>

theorem updateStatus_regresses:
  "map status (messages (snd (markConversationAsRead ''c1'' ''bob'' demoStore))) = [READ, SENT]
   \<and> map status (messages (snd (updateStatus ''m1'' DELIVERED
        (snd (markConversationAsRead ''c1'' ''bob'' demoStore))))) = [DELIVERED, SENT]
   \<and> status_rank DELIVERED < status_rank READ"
  by (simp add: demo_defs markConversationAsRead_def readEligible_def updateStatus_def
      findOneMessage_def saveLoaded_def Let_def)

lemma map_upd_id: "\<forall>m \<in> set xs. \<not> P m \<Longrightarrow> map (\<lambda>m. if P m then f m else m) xs = xs"
  by (induction xs) auto

lemma filter_upd_none:
  "(\<And>m. P m \<Longrightarrow> \<not> P (f m)) \<Longrightarrow> filter P (map (\<lambda>m. if P m then f m else m) xs) = []"
  by (induction xs) auto

lemma store_messages_same: "st\<lparr> messages := messages st \<rparr> = st"
  by simp

lemma read_twice:
  "fst (markConversationAsRead c u (snd (markConversationAsRead c u st))) = 0"
  by (simp add: markConversationAsRead_def Let_def filter_upd_none readEligible_def)

lemma map_upd_idem:
  "(\<And>m. P m \<Longrightarrow> \<not> P (f m)) \<Longrightarrow>
   map (\<lambda>m. if P m then f m else m) (map (\<lambda>m. if P m then f m else m) xs)
     = map (\<lambda>m. if P m then f m else m) xs"
  by (induction xs) auto

lemma read_twice_store:
  "snd (markConversationAsRead c u (snd (markConversationAsRead c u st))) = snd (markConversationAsRead c u st)"
proof -
  have idem: "map (\<lambda>m. if readEligible c u m then m\<lparr>status := READ\<rparr> else m)
          (map (\<lambda>m. if readEligible c u m then m\<lparr>status := READ\<rparr> else m) xs)
        = map (\<lambda>m. if readEligible c u m then m\<lparr>status := READ\<rparr> else m) xs" for xs
    using map_upd_idem[of "readEligible c u" "\<lambda>m. m\<lparr>status := READ\<rparr>" xs]
    by (simp add: readEligible_def)
  show ?thesis
    by (simp add: markConversationAsRead_def Let_def idem del: map_map)
qed

lemma read_none:
  "filter (readEligible c u) (messages st) = [] \<Longrightarrow> markConversationAsRead c u st = (0, st)"
  by (simp add: markConversationAsRead_def Let_def filter_empty_conv map_upd_id)

lemma findByUserId_messages_irrelevant:
  "participants st' = participants st \<Longrightarrow> conversations st' = conversations st
   \<Longrightarrow> findByUserId st' u = findByUserId st u"
  by (simp add: findByUserId_def Let_def)

lemma delivered_shape:
  "markMessagesAsDeliveredForUser u st =
     (\<lparr> updatedCount = length (filter (sentFor (map id_c (findByUserId st u)) u) (messages st)),
        conversationIds = remdups (map conversationId
            (filter (sentFor (map id_c (findByUserId st u)) u) (messages st))) \<rparr>,
      st\<lparr> messages := map (\<lambda>m. if sentFor (map id_c (findByUserId st u)) u m
                                then m\<lparr> status := DELIVERED \<rparr> else m) (messages st) \<rparr>)"
proof (cases "filter (sentFor (map id_c (findByUserId st u)) u) (messages st) = []")
  case True
  then have "map (\<lambda>m. if sentFor (map id_c (findByUserId st u)) u m
                                then m\<lparr> status := DELIVERED \<rparr> else m) (messages st) = messages st"
    by (simp add: filter_empty_conv map_upd_id)
  with True show ?thesis
    by (simp add: markMessagesAsDeliveredForUser_def Let_def)
next
  case False
  then have ne: "findByUserId st u \<noteq> []"
    by (auto simp: filter_empty_conv sentFor_def)
  from False ne show ?thesis
    by (simp add: markMessagesAsDeliveredForUser_def Let_def)
qed

lemma delivered_none:
  "filter (sentFor (map id_c (findByUserId st u)) u) (messages st) = []
   \<Longrightarrow> markMessagesAsDeliveredForUser u st = (\<lparr> updatedCount = 0, conversationIds = [] \<rparr>, st)"
  by (subst delivered_shape) (simp add: filter_empty_conv map_upd_id)

lemma delivered_twice:
  "fst (markMessagesAsDeliveredForUser u (snd (markMessagesAsDeliveredForUser u st)))
     = \<lparr> updatedCount = 0, conversationIds = [] \<rparr>"
proof -
  let ?st' = "snd (markMessagesAsDeliveredForUser u st)"
  let ?ids = "map id_c (findByUserId st u)"
  have st': "?st' = st\<lparr> messages := map (\<lambda>m. if sentFor ?ids u m
                                then m\<lparr> status := DELIVERED \<rparr> else m) (messages st) \<rparr>"
    by (simp add: delivered_shape)
  have same: "findByUserId ?st' u = findByUserId st u"
    by (rule findByUserId_messages_irrelevant) (simp_all add: st')
  have none: "filter (sentFor ?ids u) (map (\<lambda>m. if sentFor ?ids u m
                                then m\<lparr> status := DELIVERED \<rparr> else m) (messages st)) = []"
    using filter_upd_none[of "sentFor ?ids u" "\<lambda>m. m\<lparr> status := DELIVERED \<rparr>" "messages st"]
    by (simp add: sentFor_def)
  have "filter (sentFor (map id_c (findByUserId ?st' u)) u) (messages ?st') = []"
    unfolding same by (subst st') (simp add: none del: map_map)
  then have "markMessagesAsDeliveredForUser u ?st' = (\<lparr> updatedCount = 0, conversationIds = [] \<rparr>, ?st')"
    by (rule delivered_none)
  then show ?thesis by simp
qed

lemma delivered_twice_store:
  "snd (markMessagesAsDeliveredForUser u (snd (markMessagesAsDeliveredForUser u st)))
     = snd (markMessagesAsDeliveredForUser u st)"
proof -
  let ?st' = "snd (markMessagesAsDeliveredForUser u st)"
  let ?ids = "map id_c (findByUserId st u)"
  have st': "?st' = st\<lparr> messages := map (\<lambda>m. if sentFor ?ids u m
                                then m\<lparr> status := DELIVERED \<rparr> else m) (messages st) \<rparr>"
    by (simp add: delivered_shape)
  have same: "findByUserId ?st' u = findByUserId st u"
    by (rule findByUserId_messages_irrelevant) (simp_all add: st')
  have none: "filter (sentFor ?ids u) (map (\<lambda>m. if sentFor ?ids u m
                                then m\<lparr> status := DELIVERED \<rparr> else m) (messages st)) = []"
    using filter_upd_none[of "sentFor ?ids u" "\<lambda>m. m\<lparr> status := DELIVERED \<rparr>" "messages st"]
    by (simp add: sentFor_def)
  have "filter (sentFor (map id_c (findByUserId ?st' u)) u) (messages ?st') = []"
    unfolding same by (subst st') (simp add: none del: map_map)
  then have "markMessagesAsDeliveredForUser u ?st' = (\<lparr> updatedCount = 0, conversationIds = [] \<rparr>, ?st')"
    by (rule delivered_none)
  then show ?thesis by simp
qed

lemma isParticipant_iff:
  "isParticipant st c u \<longleftrightarrow> (\<exists>p \<in> set (participants st). conversationId_p p = c \<and> userId_p p = u)"
  by (auto simp: isParticipant_def find_None_iff)

lemma findByUserId_ids:
  assumes "referential st"
  shows "set (map id_c (findByUserId st u)) = {c. isParticipant st c u}"
proof (rule set_eqI)
  fix c
  let ?ps = "filter (\<lambda>p. userId_p p = u) (participants st)"
  have in_ids: "c \<in> set (map conversationId_p ?ps) \<longleftrightarrow> isParticipant st c u"
    by (auto simp: isParticipant_iff)
  have known: "isParticipant st c u \<Longrightarrow> c \<in> set (map id_c (conversations st))"
    using assms by (auto simp: isParticipant_iff referential_def list_all_iff)
  show "c \<in> set (map id_c (findByUserId st u)) \<longleftrightarrow> c \<in> {c. isParticipant st c u}"
  proof (cases "?ps = []")
    case True
    then have "\<not> isParticipant st c u"
      by (auto simp: isParticipant_iff filter_empty_conv)
    with True show ?thesis by (simp add: findByUserId_def Let_def)
  next
    case False
    then have "set (map id_c (findByUserId st u)) =
        {x \<in> set (map id_c (conversations st)). x \<in> set (map conversationId_p ?ps)}"
      by (auto simp: findByUserId_def Let_def)
    with in_ids known show ?thesis by auto
  qed
qed

lemma sentFor_eligible:
  "referential st \<Longrightarrow> sentFor (map id_c (findByUserId st u)) u m = eligibleForDelivery st u m"
  using findByUserId_ids[of st u]
  by (auto simp: sentFor_def eligibleForDelivery_def)

text \<open>
  C6. \<open>markMessagesAsDeliveredForUser\<close> sets to DELIVERED exactly the messages that are not
  globally deleted, not sent by the user, currently SENT and in a conversation the user
  participates in; every other row and every other table is left as it was, and the count
  returned is the number of those messages.
\<close>

theorem delivered_exactly_eligible:
  assumes "referential st"
  shows "messages (snd (markMessagesAsDeliveredForUser u st)) =
           map (\<lambda>m. if eligibleForDelivery st u m then m\<lparr> status := DELIVERED \<rparr> else m) (messages st)
         \<and> updatedCount (fst (markMessagesAsDeliveredForUser u st)) =
             length (filter (eligibleForDelivery st u) (messages st))
         \<and> set (conversationIds (fst (markMessagesAsDeliveredForUser u st))) =
             conversationId ` {m \<in> set (messages st). eligibleForDelivery st u m}
         \<and> deletions (snd (markMessagesAsDeliveredForUser u st)) = deletions st
         \<and> participants (snd (markMessagesAsDeliveredForUser u st)) = participants st
         \<and> conversations (snd (markMessagesAsDeliveredForUser u st)) = conversations st"
proof -
  have eq: "sentFor (map id_c (findByUserId st u)) u = eligibleForDelivery st u"
    using sentFor_eligible[OF assms, of u] by (intro ext) simp
  show ?thesis
    by (simp add: delivered_shape eq)
qed


theorem delivered_exactly_eligible_witness:
  "referential demoStore
   \<and> map status (messages (snd (markMessagesAsDeliveredForUser ''bob'' demoStore))) = [DELIVERED, SENT]
   \<and> updatedCount (fst (markMessagesAsDeliveredForUser ''bob'' demoStore)) = 1"
proof -
  have r: "referential demoStore"
    by (simp add: referential_def demo_defs)
  have e: "map (eligibleForDelivery demoStore ''bob'') (messages demoStore) = [True, False]"
    by (simp add: eligibleForDelivery_def isParticipant_def demo_defs)
  from e have m: "map status (map (\<lambda>m. if eligibleForDelivery demoStore ''bob'' m
                     then m\<lparr> status := DELIVERED \<rparr> else m) (messages demoStore)) = [DELIVERED, SENT]"
    by (simp add: demo_defs)
  from e have n: "length (filter (eligibleForDelivery demoStore ''bob'') (messages demoStore)) = 1"
    by (simp add: demo_defs)
  from delivered_exactly_eligible[OF r, of "''bob''"] r m n show ?thesis by simp
qed

text \<open>
  C5. Both batch operations are idempotent: an immediate second call affects no row and
  leaves the store as the first call left it; and with no eligible row either operation
  returns the count 0 and the store unchanged (neither has an error result).
\<close>

theorem batch_status_idempotent:
  "fst (markConversationAsRead c u (snd (markConversationAsRead c u st))) = 0
   \<and> snd (markConversationAsRead c u (snd (markConversationAsRead c u st)))
       = snd (markConversationAsRead c u st)
   \<and> fst (markMessagesAsDeliveredForUser u (snd (markMessagesAsDeliveredForUser u st)))
       = \<lparr> updatedCount = 0, conversationIds = [] \<rparr>
   \<and> snd (markMessagesAsDeliveredForUser u (snd (markMessagesAsDeliveredForUser u st)))
       = snd (markMessagesAsDeliveredForUser u st)
   \<and> (filter (readEligible c u) (messages st) = [] \<longrightarrow> markConversationAsRead c u st = (0, st))
   \<and> (filter (sentFor (map id_c (findByUserId st u)) u) (messages st) = [] \<longrightarrow>
        markMessagesAsDeliveredForUser u st = (\<lparr> updatedCount = 0, conversationIds = [] \<rparr>, st))"
  using read_twice[of c u st] read_twice_store[of c u st] delivered_twice[of u st]
    delivered_twice_store[of u st] read_none[of c u st] delivered_none[of st u]
  by blast

theorem batch_status_idempotent_witness:
  "filter (readEligible ''c2'' ''carol'') (messages demoStore) = []
   \<and> markConversationAsRead ''c2'' ''carol'' demoStore = (0, demoStore)
   \<and> filter (sentFor (map id_c (findByUserId demoStore ''carol'')) ''carol'') (messages demoStore) = []
   \<and> markMessagesAsDeliveredForUser ''carol'' demoStore
       = (\<lparr> updatedCount = 0, conversationIds = [] \<rparr>, demoStore)
   \<and> fst (markConversationAsRead ''c2'' ''carol'' (snd (markConversationAsRead ''c2'' ''carol'' demoStore))) = 0"
proof -
  have h1: "filter (readEligible ''c2'' ''carol'') (messages demoStore) = []"
    by (simp add: readEligible_def demo_defs)
  have h2: "filter (sentFor (map id_c (findByUserId demoStore ''carol'')) ''carol'') (messages demoStore) = []"
    by (simp add: sentFor_def findByUserId_def Let_def demo_defs)
  from batch_status_idempotent[of "''c2''" "''carol''" demoStore] h1 h2 show ?thesis by blast
qed

text \<open>The two batch operations, unlike \<open>updateStatus\<close>, never lower the rank of a status.\<close>

lemma status_rank_le_READ: "status_rank s \<le> status_rank READ"
  by (cases s) simp_all

lemma read_monotone:
  "list_all2 (\<lambda>m m'. id_m m' = id_m m \<and> status_rank (status m) \<le> status_rank (status m'))
     (messages st) (messages (snd (markConversationAsRead c u st)))"
  using status_rank_le_READ
  by (auto simp: markConversationAsRead_def Let_def list_all2_map2 intro!: list.rel_refl_strong)

lemma delivered_monotone:
  "list_all2 (\<lambda>m m'. id_m m' = id_m m \<and> status_rank (status m) \<le> status_rank (status m'))
     (messages st) (messages (snd (markMessagesAsDeliveredForUser u st)))"
  by (auto simp: delivered_shape sentFor_def list_all2_map2 intro!: list.rel_refl_strong)

subsection \<open>Visibility: deletion for one user and for everyone\<close>

lemma findOne_None_iff: "findOneMessage st m = None \<longleftrightarrow> m \<notin> set (map id_m (messages st))"
  by (auto simp: findOneMessage_def find_None_iff)

lemma paged_subset: "set (take limit (drop offset (orderAsc rows))) \<subseteq> set rows"
proof -
  have "set (take limit (drop offset (orderAsc rows))) \<subseteq> set (orderAsc rows)"
    by (meson set_take_subset set_drop_subset subset_trans)
  then show ?thesis by (simp add: orderAsc_def)
qed

lemma filtered_subset:
  "set (findByConversationIdFiltered c v limit offset st)
     \<subseteq> {x \<in> set (messages st). conversationId x = c \<and> isDeleted x = False
          \<and> id_m x \<notin> set (map messageId_d (filter (\<lambda>d. userId_d d = v) (deletions st)))}"
proof -
  let ?ids = "map messageId_d (filter (\<lambda>d. userId_d d = v) (deletions st))"
  let ?base = "filter (\<lambda>m. conversationId m = c \<and> isDeleted m = False) (messages st)"
  let ?rows = "if length ?ids > 0 then filter (\<lambda>m. id_m m \<notin> set ?ids) ?base else ?base"
  have "set (findByConversationIdFiltered c v limit offset st) \<subseteq> set ?rows"
    unfolding findByConversationIdFiltered_def Let_def by (rule paged_subset)
  moreover have "set ?rows \<subseteq> {x \<in> set (messages st). conversationId x = c \<and> isDeleted x = False
          \<and> id_m x \<notin> set ?ids}"
    by (cases "?ids = []") auto
  ultimately show ?thesis by blast
qed

lemma deleteForMe_result:
  "deleteMessageForMe m v now st =
     (if findOneMessage st m = None then (Inl NotFoundException, st)
      else if (m, v) \<in> set (deletionPairs st) then (Inr (), st)
      else (Inr (), st\<lparr> deletions := deletions st @
                        [\<lparr> messageId_d = m, userId_d = v, deletedAt = now \<rparr>] \<rparr>))"
proof -
  have "(find (\<lambda>d. messageId_d d = m \<and> userId_d d = v) (deletions st) = None)
          \<longleftrightarrow> (m, v) \<notin> set (deletionPairs st)"
    by (auto simp: find_None_iff deletionPairs_def)
  then show ?thesis
    by (auto simp: deleteMessageForMe_def split: option.splits)
qed

lemma deleteForMe_recorded:
  "findOneMessage st m \<noteq> None \<Longrightarrow> (m, v) \<in> set (deletionPairs (snd (deleteMessageForMe m v now st)))"
  by (simp add: deleteForMe_result deletionPairs_def)

lemma deleteForMe_messages: "messages (snd (deleteMessageForMe m v now st)) = messages st"
  by (simp add: deleteForMe_result)

lemma deleted_omitted:
  "(m, v) \<in> set (deletionPairs st) \<Longrightarrow> m \<notin> set (map id_m (findByConversationIdFiltered c v limit offset st))"
proof
  assume p: "(m, v) \<in> set (deletionPairs st)"
    and "m \<in> set (map id_m (findByConversationIdFiltered c v limit offset st))"
  then obtain x where x: "x \<in> set (findByConversationIdFiltered c v limit offset st)" "id_m x = m"
    by auto
  from p have "m \<in> set (map messageId_d (filter (\<lambda>d. userId_d d = v) (deletions st)))"
    by (auto simp: deletionPairs_def)
  with x filtered_subset[of c v limit offset st] show False by auto
qed

lemma deleteForMe_omits:
  "m \<notin> set (map id_m (findByConversationIdFiltered c v limit offset (snd (deleteMessageForMe m v now st))))"
proof (cases "findOneMessage st m = None")
  case True
  then have "m \<notin> set (map id_m (messages st))" by (simp add: findOne_None_iff)
  moreover have "set (findByConversationIdFiltered c v limit offset st) \<subseteq> set (messages st)"
    using filtered_subset[of c v limit offset st] by blast
  ultimately have "m \<notin> set (map id_m (findByConversationIdFiltered c v limit offset st))"
    by auto
  with True show ?thesis by (simp add: deleteForMe_result)
next
  case False
  then show ?thesis by (intro deleted_omitted deleteForMe_recorded)
qed

lemma deleteForMe_others:
  "u \<noteq> v \<Longrightarrow> findByConversationIdFiltered c u limit offset (snd (deleteMessageForMe m v now st))
     = findByConversationIdFiltered c u limit offset st"
  by (simp add: deleteForMe_result findByConversationIdFiltered_def)

lemma deleteForMe_distinct:
  "distinct (deletionPairs st) \<Longrightarrow> distinct (deletionPairs (snd (deleteMessageForMe m v now st)))"
  by (auto simp: deleteForMe_result) (simp add: deletionPairs_def)

lemma deleteForMe_again:
  "findOneMessage st m \<noteq> None \<Longrightarrow>
   deleteMessageForMe m v now' (snd (deleteMessageForMe m v now st))
     = (Inr (), snd (deleteMessageForMe m v now st))"
proof -
  assume e: "findOneMessage st m \<noteq> None"
  let ?st' = "snd (deleteMessageForMe m v now st)"
  have "findOneMessage ?st' m \<noteq> None"
    using e by (simp add: findOneMessage_def deleteForMe_messages)
  moreover have "(m, v) \<in> set (deletionPairs ?st')"
    using e by (rule deleteForMe_recorded)
  ultimately show ?thesis
    by (subst deleteForMe_result) simp
qed

text \<open>
  C7. After \<open>deleteMessageForMe m v\<close> the filtered fetch of \<open>v\<close> contains no row of key
  \<open>m\<close> (no tombstone either), the filtered fetch of every other user is what it was before,
  no message row changes, the deletion table keeps at most one row per (message, user) pair,
  and a repeated call adds nothing. The call succeeds whenever the message exists.
\<close>

theorem per_user_deletion:
  "(findOneMessage st m \<noteq> None \<longrightarrow> fst (deleteMessageForMe m v now st) = Inr ())
   \<and> m \<notin> set (map id_m (findByConversationIdFiltered c v limit offset (snd (deleteMessageForMe m v now st))))
   \<and> (u \<noteq> v \<longrightarrow> findByConversationIdFiltered c u limit offset (snd (deleteMessageForMe m v now st))
                   = findByConversationIdFiltered c u limit offset st)
   \<and> messages (snd (deleteMessageForMe m v now st)) = messages st
   \<and> (distinct (deletionPairs st) \<longrightarrow> distinct (deletionPairs (snd (deleteMessageForMe m v now st))))
   \<and> (findOneMessage st m \<noteq> None \<longrightarrow>
        deleteMessageForMe m v now' (snd (deleteMessageForMe m v now st))
          = (Inr (), snd (deleteMessageForMe m v now st)))"
  using deleteForMe_omits[of m c v limit offset now st] deleteForMe_others[of u v c limit offset m now st]
    deleteForMe_distinct[of st m v now] deleteForMe_again[of st m v now' now]
  by (simp add: deleteForMe_messages deleteForMe_result)

theorem per_user_deletion_witness:
  "findOneMessage demoStore ''m1'' \<noteq> None \<and> ''alice'' \<noteq> ''bob'' \<and> distinct (deletionPairs demoStore)
   \<and> fst (deleteMessageForMe ''m1'' ''bob'' 7 demoStore) = Inr ()
   \<and> ''m1'' \<notin> set (map id_m (findByConversationIdFiltered ''c1'' ''bob'' 50 0
         (snd (deleteMessageForMe ''m1'' ''bob'' 7 demoStore))))
   \<and> findByConversationIdFiltered ''c1'' ''alice'' 50 0 (snd (deleteMessageForMe ''m1'' ''bob'' 7 demoStore))
       = [hello, reply]
   \<and> distinct (deletionPairs (snd (deleteMessageForMe ''m1'' ''bob'' 7 demoStore)))
   \<and> deleteMessageForMe ''m1'' ''bob'' 8 (snd (deleteMessageForMe ''m1'' ''bob'' 7 demoStore))
       = (Inr (), snd (deleteMessageForMe ''m1'' ''bob'' 7 demoStore))"
proof -
  have e: "findOneMessage demoStore ''m1'' \<noteq> None"
    by (simp add: findOneMessage_def demo_defs)
  have n: "''alice'' \<noteq> ''bob''" by simp
  have d: "distinct (deletionPairs demoStore)"
    by (simp add: deletionPairs_def demo_defs)
  have a: "findByConversationIdFiltered ''c1'' ''alice'' 50 0 demoStore = [hello, reply]"
    by (simp add: findByConversationIdFiltered_def orderAsc_def demo_defs)
  from per_user_deletion[of demoStore "''m1''" "''bob''" 7 "''c1''" 50 0 "''alice''" 8] e n d a
  show ?thesis by simp
qed

lemma insort_key_map:
  "(\<And>x. k (f x) = k x) \<Longrightarrow> insort_key k (f x) (map f ys) = map f (insort_key k x ys)"
  by (induction ys) auto

lemma sort_key_map:
  "(\<And>x. k (f x) = k x) \<Longrightarrow> sort_key k (map f xs) = map f (sort_key k xs)"
  by (induction xs) (simp_all add: insort_key_map)

lemma filter_map_inv:
  "(\<And>x. P (f x) = P x) \<Longrightarrow> filter P (map f xs) = map f (filter P xs)"
  by (induction xs) auto

lemma tombstone_keeps:
  "id_m (tombstone m r) = id_m r" "conversationId (tombstone m r) = conversationId r"
  "createdAt (tombstone m r) = createdAt r" "senderId (tombstone m r) = senderId r"
  "status (tombstone m r) = status r"
  by (simp_all add: tombstone_def)

lemma find_unique:
  "distinct (map id_m ms) \<Longrightarrow> find (\<lambda>r. id_m r = m) ms = Some msg \<Longrightarrow> r \<in> set ms \<Longrightarrow> id_m r = m
   \<Longrightarrow> r = msg"
  by (induction ms) (auto split: if_splits)

lemma deleteForEveryone_result:
  assumes d: "distinct (map id_m (messages st))"
    and f: "findOneMessage st m = Some msg" and s: "senderId msg = u"
  shows "deleteMessageForEveryone m u st = (Inr (), st\<lparr> messages := map (tombstone m) (messages st) \<rparr>)"
proof -
  have idm: "id_m msg = m"
    using f by (auto simp: findOneMessage_def dest: find_Some_iff[THEN iffD1])
  have "map (\<lambda>r. if id_m r = id_m (msg\<lparr> isDeleted := True, content := None \<rparr>)
                  then msg\<lparr> isDeleted := True, content := None \<rparr> else r) (messages st)
        = map (tombstone m) (messages st)"
  proof (rule map_cong[OF refl])
    fix r assume r: "r \<in> set (messages st)"
    show "(if id_m r = id_m (msg\<lparr> isDeleted := True, content := None \<rparr>)
           then msg\<lparr> isDeleted := True, content := None \<rparr> else r) = tombstone m r"
    proof (cases "id_m r = m")
      case True
      with d f r have "r = msg" by (auto simp: findOneMessage_def intro: find_unique)
      with True idm show ?thesis by (simp add: tombstone_def)
    next
      case False
      with idm show ?thesis by (simp add: tombstone_def)
    qed
  qed
  with f s show ?thesis
    by (simp add: deleteMessageForEveryone_def saveLoaded_def)
qed

lemma tombstoned_history:
  "fst (findByConversationId c w limit offset now (st\<lparr> messages := map (tombstone m) (messages st) \<rparr>))
     = map_sum id (map (tombstone m)) (fst (findByConversationId c w limit offset now st))"
proof -
  have "orderAsc (filter (\<lambda>x. conversationId x = c) (map (tombstone m) (messages st)))
        = map (tombstone m) (orderAsc (filter (\<lambda>x. conversationId x = c) (messages st)))"
    by (simp add: orderAsc_def filter_map_inv[of "\<lambda>x. conversationId x = c" "tombstone m"]
        sort_key_map[of createdAt "tombstone m"] tombstone_keeps del: filter_map)
  then show ?thesis
    by (simp add: findByConversationId_def isParticipant_def Let_def take_map drop_map)
qed

lemma tombstone_flag: "id_m (tombstone m r) = m \<Longrightarrow> isDeleted (tombstone m r) \<and> content (tombstone m r) = None"
  by (cases "id_m r = m") (simp_all add: tombstone_def)

lemma tombstoned_flag:
  "x \<in> set (map (tombstone m) ms) \<Longrightarrow> id_m x = m \<Longrightarrow> isDeleted x \<and> content x = None"
proof -
  assume "x \<in> set (map (tombstone m) ms)" and i: "id_m x = m"
  then obtain r where "x = tombstone m r" by auto
  with i show ?thesis using tombstone_flag[of m r] by simp
qed

lemma tombstoned_not_filtered:
  "m \<notin> set (map id_m (findByConversationIdFiltered c w limit offset
        (st\<lparr> messages := map (tombstone m) (messages st) \<rparr>)))"
proof
  let ?st' = "st\<lparr> messages := map (tombstone m) (messages st) \<rparr>"
  assume "m \<in> set (map id_m (findByConversationIdFiltered c w limit offset ?st'))"
  then obtain x where x: "x \<in> set (findByConversationIdFiltered c w limit offset ?st')" "id_m x = m"
    by auto
  with filtered_subset[of c w limit offset ?st']
  have "x \<in> set (map (tombstone m) (messages st))" "isDeleted x = False" by auto
  with x tombstoned_flag[of x m "messages st"] show False by simp
qed

lemma desc_subset: "set (take limit (orderDesc rows)) \<subseteq> set rows"
proof -
  have "set (take limit (orderDesc rows)) \<subseteq> set (orderDesc rows)" by (rule set_take_subset)
  then show ?thesis by (simp add: orderDesc_def)
qed

lemma search_subset:
  "searchMessages lw c w q limit st = Inr xs \<Longrightarrow>
     set xs \<subseteq> {x \<in> set (messages st). conversationId x = c \<and> isDeleted x = False}"
proof -
  assume a: "searchMessages lw c w q limit st = Inr xs"
  then have "xs = take limit (orderDesc (filter (\<lambda>x. conversationId x = c
        \<and> contentLike ([CHR ''%''] @ toLowerCase lw q @ [CHR ''%'']) x \<and> isDeleted x = False) (messages st)))"
    by (auto simp: searchMessages_def Let_def split: if_splits)
  with desc_subset[of limit "filter (\<lambda>x. conversationId x = c
        \<and> contentLike ([CHR ''%''] @ toLowerCase lw q @ [CHR ''%'']) x \<and> isDeleted x = False) (messages st)"]
  show ?thesis by auto
qed

lemma searchGlobal_subset:
  "set (searchMessagesGlobal lw w q limit st) \<subseteq> {x \<in> set (messages st). isDeleted x = False}"
proof (cases "findByUserId st w = []")
  case True
  then show ?thesis by (simp add: searchMessagesGlobal_def)
next
  case False
  then have "searchMessagesGlobal lw w q limit st = take limit (orderDesc (filter (\<lambda>x. conversationId x \<in> set (map id_c (findByUserId st w))
        \<and> contentLike ([CHR ''%''] @ toLowerCase lw q @ [CHR ''%'']) x \<and> isDeleted x = False) (messages st)))"
    by (simp add: searchMessagesGlobal_def Let_def)
  with desc_subset[of limit "filter (\<lambda>x. conversationId x \<in> set (map id_c (findByUserId st w))
        \<and> contentLike ([CHR ''%''] @ toLowerCase lw q @ [CHR ''%'']) x \<and> isDeleted x = False) (messages st)"]
  show ?thesis by auto
qed

lemma tombstoned_not_searched:
  "searchMessages lw c w q limit (st\<lparr> messages := map (tombstone m) (messages st) \<rparr>) = Inr xs
   \<Longrightarrow> m \<notin> set (map id_m xs)"
proof
  let ?st' = "st\<lparr> messages := map (tombstone m) (messages st) \<rparr>"
  assume a: "searchMessages lw c w q limit ?st' = Inr xs" and "m \<in> set (map id_m xs)"
  then obtain x where x: "x \<in> set xs" "id_m x = m" by auto
  with search_subset[OF a]
  have "x \<in> set (map (tombstone m) (messages st))" "isDeleted x = False" by auto
  with x tombstoned_flag[of x m "messages st"] show False by simp
qed

lemma tombstoned_not_searched_globally:
  "m \<notin> set (map id_m (searchMessagesGlobal lw w q limit (st\<lparr> messages := map (tombstone m) (messages st) \<rparr>)))"
proof
  let ?st' = "st\<lparr> messages := map (tombstone m) (messages st) \<rparr>"
  assume "m \<in> set (map id_m (searchMessagesGlobal lw w q limit ?st'))"
  then obtain x where x: "x \<in> set (searchMessagesGlobal lw w q limit ?st')" "id_m x = m" by auto
  with searchGlobal_subset[of lw w q limit ?st']
  have "x \<in> set (map (tombstone m) (messages st))" "isDeleted x = False" by auto
  with x tombstoned_flag[of x m "messages st"] show False by simp
qed

text \<open>
  C2, as amended. After \<open>deleteMessageForEveryone\<close> by the sender the row of \<open>m\<close> stays in
  the table at its place with its key, conversation and creation time, its content cleared and
  its deleted flag set. The unfiltered history fetch \<open>findByConversationId\<close> returns what it
  returned before with that row replaced by this tombstone, in the same order. The filtered
  fetch \<open>findByConversationIdFiltered\<close> and both searches return no row of key \<open>m\<close>: they
  omit the deleted message instead of showing a tombstone.
\<close>

theorem global_deletion_views:
  assumes "distinct (map id_m (messages st))"
    and "findOneMessage st m = Some msg" and "senderId msg = u"
  shows "fst (deleteMessageForEveryone m u st) = Inr ()
    \<and> messages (snd (deleteMessageForEveryone m u st)) = map (tombstone m) (messages st)
    \<and> fst (findByConversationId c w limit offset now (snd (deleteMessageForEveryone m u st)))
        = map_sum id (map (tombstone m)) (fst (findByConversationId c w limit offset now st))
    \<and> m \<notin> set (map id_m (findByConversationIdFiltered c w limit offset (snd (deleteMessageForEveryone m u st))))
    \<and> m \<notin> set (map id_m (searchMessagesGlobal lw w q limit (snd (deleteMessageForEveryone m u st))))
    \<and> (\<forall>xs. searchMessages lw c w q limit (snd (deleteMessageForEveryone m u st)) = Inr xs
          \<longrightarrow> m \<notin> set (map id_m xs))"
  using tombstoned_history[of c w limit offset now m st] tombstoned_not_filtered[of m c w limit offset st]
    tombstoned_not_searched_globally[of m lw w q limit st] tombstoned_not_searched[of lw c w q limit m st]
  by (simp add: deleteForEveryone_result[OF assms])

theorem global_deletion_views_witness:
  "distinct (map id_m (messages demoStore)) \<and> findOneMessage demoStore ''m1'' = Some hello
   \<and> senderId hello = ''alice''
   \<and> fst (deleteMessageForEveryone ''m1'' ''alice'' demoStore) = Inr ()
   \<and> fst (findByConversationId ''c1'' ''bob'' 50 0 9 (snd (deleteMessageForEveryone ''m1'' ''alice'' demoStore)))
       = Inr [hello\<lparr> isDeleted := True, content := None \<rparr>, reply]
   \<and> ''m1'' \<notin> set (map id_m (findByConversationIdFiltered ''c1'' ''bob'' 50 0
         (snd (deleteMessageForEveryone ''m1'' ''alice'' demoStore))))
   \<and> ''m1'' \<notin> set (map id_m (searchMessagesGlobal id ''bob'' ''hello'' 50
         (snd (deleteMessageForEveryone ''m1'' ''alice'' demoStore))))"
proof -
  have d: "distinct (map id_m (messages demoStore))" by (simp add: demo_defs)
  have f: "findOneMessage demoStore ''m1'' = Some hello" by (simp add: findOneMessage_def demo_defs)
  have s: "senderId hello = ''alice''" by (simp add: hello_def)
  have h: "fst (findByConversationId ''c1'' ''bob'' 50 0 9 demoStore) = Inr [hello, reply]"
    by (simp add: findByConversationId_def isParticipant_def orderAsc_def demo_defs)
  have t: "map (tombstone ''m1'') [hello, reply] = [hello\<lparr> isDeleted := True, content := None \<rparr>, reply]"
    by (simp add: tombstone_def demo_defs)
  from global_deletion_views[OF d f s, of "''c1''" "''bob''" 50 0 9 id "''hello''"] d f s h t
  show ?thesis by simp
qed

text \<open>The claim C2 as stated fails on the filtered fetch: after Alice deletes \<open>m1\<close> for
  everyone, Bob's filtered fetch of \<open>c1\<close> holds \<open>m2\<close> only, with no tombstone for \<open>m1\<close>.\<close>

theorem global_deletion_no_tombstone:
  "fst (deleteMessageForEveryone ''m1'' ''alice'' demoStore) = Inr ()
   \<and> map id_m (findByConversationIdFiltered ''c1'' ''bob'' 50 0
        (snd (deleteMessageForEveryone ''m1'' ''alice'' demoStore))) = [''m2'']"
  by (simp add: deleteMessageForEveryone_def findOneMessage_def saveLoaded_def
      findByConversationIdFiltered_def orderAsc_def demo_defs)

subsection \<open>Authorization failures\<close>

text \<open>The bound on the steps of \<open>stripLeading\<close> is enough: what \<open>trimStart\<close> returns begins
  with no white space, and what \<open>trimEnd\<close> returns ends with none.\<close>

lemma stripLeading_done:
  "\<forall>w \<in> set ws. w \<noteq> [] \<Longrightarrow> length s \<le> n \<Longrightarrow>
   find (\<lambda>w. prefix w (stripLeading ws n s)) ws = None"
proof (induction n arbitrary: s)
  case 0
  then show ?case by (auto simp: find_None_iff)
next
  case (Suc n)
  show ?case
  proof (cases "find (\<lambda>w. prefix w s) ws")
    case None
    then show ?thesis by simp
  next
    case (Some w)
    then have "w \<in> set ws" "prefix w s"
      by (auto simp: find_Some_iff)
    with Suc.prems(1) have "w \<noteq> []" "length w \<le> length s" by (auto simp: prefix_length_le)
    with Suc.prems(2) have "length (drop (length w) s) \<le> n" by (cases w) auto
    with Some Suc.IH[OF Suc.prems(1)] show ?thesis by simp
  qed
qed

lemma trim_ends:
  "find (\<lambda>w. prefix w (trimStart s)) whiteSpaces = None"
  "find (\<lambda>w. suffix w (trimEnd s)) whiteSpaces = None"
proof -
  have ne: "\<forall>w \<in> set whiteSpaces. w \<noteq> []" by (simp add: whiteSpaces_def)
  show "find (\<lambda>w. prefix w (trimStart s)) whiteSpaces = None"
    unfolding trimStart_def by (rule stripLeading_done[OF ne]) simp
  from ne have ne': "\<forall>w \<in> set (map rev whiteSpaces). w \<noteq> []" by simp
  have "find (\<lambda>w. prefix w (stripLeading (map rev whiteSpaces) (length s) (rev s))) (map rev whiteSpaces) = None"
    by (rule stripLeading_done[OF ne']) simp
  then show "find (\<lambda>w. suffix w (trimEnd s)) whiteSpaces = None"
    by (auto simp: find_None_iff trimEnd_def suffix_to_prefix)
qed

lemma validate_error: "validateMessageContent dto = Some e \<Longrightarrow> e = BadRequestException"
  by (auto simp: validateMessageContent_def split: if_splits)

lemma saveMessage_outsider:
  "\<not> isParticipant st (conversationId_dto dto) (senderId_dto dto) \<Longrightarrow>
     saveMessage dto newId now st =
       (Inl (if validateMessageContent dto = None then ForbiddenException else BadRequestException), st)"
  by (auto simp: saveMessage_def split: option.splits dest: validate_error)

lemma non_sender_rejected:
  "findOneMessage st m = Some msg \<Longrightarrow> senderId msg \<noteq> u \<Longrightarrow>
     editMessage m u newContent now st = (Inl ForbiddenException, st)
     \<and> deleteMessageForEveryone m u st = (Inl ForbiddenException, st)
     \<and> deleteMessage m u st = (Inl ForbiddenException, st)"
  by (simp add: editMessage_def deleteMessageForEveryone_def deleteMessage_def)

text \<open>
  C8, as amended. If the sender is not a participant of the conversation, \<open>saveMessage\<close>
  fails and leaves the store as it was (no message row, last-message preview untouched): with
  the authorization error when the payload passes content validation, with the validation
  error when it does not, since validation runs first. If the caller is not the sender of an
  existing message, \<open>editMessage\<close>, \<open>deleteMessageForEveryone\<close> and \<open>deleteMessage\<close> fail
  with the authorization error and leave the store as it was.
\<close>

theorem authorization_failures_atomic:
  "(\<not> isParticipant st (conversationId_dto dto) (senderId_dto dto) \<longrightarrow>
      saveMessage dto newId now st =
        (Inl (if validateMessageContent dto = None then ForbiddenException else BadRequestException), st))
   \<and> (findOneMessage st m = Some msg \<and> senderId msg \<noteq> u \<longrightarrow>
        editMessage m u newContent now st = (Inl ForbiddenException, st)
        \<and> deleteMessageForEveryone m u st = (Inl ForbiddenException, st)
        \<and> deleteMessage m u st = (Inl ForbiddenException, st))"
  using saveMessage_outsider[of st dto newId now] non_sender_rejected[of st m msg u newContent now]
  by blast

theorem authorization_failures_atomic_witness:
  "\<not> isParticipant demoStore ''c1'' ''carol''
   \<and> validateMessageContent (blankText\<lparr> content_dto := Some ''hi'' \<rparr>) = None
   \<and> saveMessage (blankText\<lparr> content_dto := Some ''hi'' \<rparr>) ''m3'' 3 demoStore
        = (Inl ForbiddenException, demoStore)
   \<and> findOneMessage demoStore ''m1'' = Some hello \<and> senderId hello \<noteq> ''bob''
   \<and> editMessage ''m1'' ''bob'' ''bye'' 3 demoStore = (Inl ForbiddenException, demoStore)
   \<and> deleteMessageForEveryone ''m1'' ''bob'' demoStore = (Inl ForbiddenException, demoStore)
   \<and> deleteMessage ''m1'' ''bob'' demoStore = (Inl ForbiddenException, demoStore)"
proof -
  have p: "\<not> isParticipant demoStore (conversationId_dto (blankText\<lparr> content_dto := Some ''hi'' \<rparr>))
             (senderId_dto (blankText\<lparr> content_dto := Some ''hi'' \<rparr>))"
    by (simp add: isParticipant_def blankText_def demo_defs)
  have v: "validateMessageContent (blankText\<lparr> content_dto := Some ''hi'' \<rparr>) = None"
    by code_simp
  have f: "findOneMessage demoStore ''m1'' = Some hello \<and> senderId hello \<noteq> ''bob''"
    by (simp add: findOneMessage_def demo_defs)
  have c: "\<not> isParticipant demoStore ''c1'' ''carol''"
    by (simp add: isParticipant_def demo_defs)
  from authorization_failures_atomic[of demoStore "blankText\<lparr> content_dto := Some ''hi'' \<rparr>"
      "''m3''" 3 "''m1''" hello "''bob''" "''bye''"] p v f c
  show ?thesis by simp
qed

text \<open>The claim C8 as stated fails where the payload is invalid too: Carol is not a
  participant of \<open>c1\<close>, and her blank text message is rejected with the validation error, not
  the authorization error.\<close>

theorem saveMessage_validation_first:
  "\<not> isParticipant demoStore ''c1'' ''carol''
   \<and> saveMessage blankText ''m3'' 3 demoStore = (Inl BadRequestException, demoStore)"
  by code_simp

subsection \<open>Forwarding\<close>

lemma forward_notfound:
  "fst (forwardMessage m u t newId now st) = Inl NotFoundException \<longleftrightarrow> findOneMessage st m = None"
  by (simp add: forwardMessage_def Let_def split: option.splits)

lemma forward_forbidden:
  "fst (forwardMessage m u t newId now st) = Inl ForbiddenException
     \<longleftrightarrow> findOneMessage st m \<noteq> None \<and> \<not> isParticipant st t u"
  by (simp add: forwardMessage_def Let_def split: option.splits)

lemma forward_success:
  "findOneMessage st m = Some orig \<Longrightarrow> isParticipant st t u \<Longrightarrow>
   \<exists>saved. forwardMessage m u t newId now st = (Inr saved, st\<lparr> messages := messages st @ [saved] \<rparr>)
     \<and> id_m saved = newId \<and> conversationId saved = t \<and> senderId saved = u
     \<and> content saved = content orig \<and> type_m saved = type_m orig \<and> fileUrl saved = fileUrl orig
     \<and> forwardedFromId saved = Some m \<and> status saved = SENT \<and> isDeleted saved = False"
  by (simp add: forwardMessage_def Let_def)

text \<open>
  C10, as amended. \<open>forwardMessage\<close> raises NotFound exactly when the message key does not
  resolve, and the authorization error exactly when the key resolves and the forwarder is not
  a participant of the target conversation. In every other case it succeeds: the copy is
  appended with the new key, the target conversation, the forwarder as sender, the original's
  content, type and file, \<open>forwardedFromId\<close> set and status SENT. Neither membership of the
  source conversation nor the deleted flag of the original is consulted, so a globally deleted
  message is forwarded with its cleared content.
\<close>

theorem forwardMessage_checks:
  "(fst (forwardMessage m u t newId now st) = Inl NotFoundException \<longleftrightarrow> findOneMessage st m = None)
   \<and> (fst (forwardMessage m u t newId now st) = Inl ForbiddenException
        \<longleftrightarrow> findOneMessage st m \<noteq> None \<and> \<not> isParticipant st t u)
   \<and> (\<forall>orig. findOneMessage st m = Some orig \<and> isParticipant st t u \<longrightarrow>
        (\<exists>saved. forwardMessage m u t newId now st = (Inr saved, st\<lparr> messages := messages st @ [saved] \<rparr>)
           \<and> id_m saved = newId \<and> conversationId saved = t \<and> senderId saved = u
           \<and> content saved = content orig \<and> type_m saved = type_m orig \<and> fileUrl saved = fileUrl orig
           \<and> forwardedFromId saved = Some m \<and> status saved = SENT \<and> isDeleted saved = False))"
  using forward_notfound[of m u t newId now st] forward_forbidden[of m u t newId now st]
    forward_success[of st m _ t u newId now]
  by blast

lemma afterGlobalDelete_eq:
  "afterGlobalDelete = demoStore\<lparr> messages := [hello\<lparr> isDeleted := True, content := None \<rparr>, reply] \<rparr>"
  by (simp add: afterGlobalDelete_def deleteMessageForEveryone_def findOneMessage_def saveLoaded_def
      demo_defs)

theorem forwardMessage_checks_witness:
  "findOneMessage afterGlobalDelete ''m1'' = Some (hello\<lparr> isDeleted := True, content := None \<rparr>)
   \<and> isParticipant afterGlobalDelete ''c2'' ''carol''
   \<and> \<not> isParticipant afterGlobalDelete ''c1'' ''carol''
   \<and> map_sum id content (fst (forwardMessage ''m1'' ''carol'' ''c2'' ''m3'' 5 afterGlobalDelete)) = Inr None
   \<and> map_sum id conversationId (fst (forwardMessage ''m1'' ''carol'' ''c2'' ''m3'' 5 afterGlobalDelete))
       = Inr ''c2''"
proof -
  have f: "findOneMessage afterGlobalDelete ''m1'' = Some (hello\<lparr> isDeleted := True, content := None \<rparr>)"
    by (simp add: afterGlobalDelete_eq findOneMessage_def demo_defs)
  have p: "isParticipant afterGlobalDelete ''c2'' ''carol''"
    by (simp add: afterGlobalDelete_eq isParticipant_def demo_defs)
  have q: "\<not> isParticipant afterGlobalDelete ''c1'' ''carol''"
    by (simp add: afterGlobalDelete_eq isParticipant_def demo_defs)
  from forwardMessage_checks[of "''m1''" "''carol''" "''c2''" "''m3''" 5 afterGlobalDelete] f p
  obtain saved where
    "forwardMessage ''m1'' ''carol'' ''c2'' ''m3'' 5 afterGlobalDelete
       = (Inr saved, afterGlobalDelete\<lparr> messages := messages afterGlobalDelete @ [saved] \<rparr>)"
    "conversationId saved = ''c2''"
    "content saved = content (hello\<lparr> isDeleted := True, content := None \<rparr>)"
    by blast
  with f p q show ?thesis by simp
qed

text \<open>The claim C10 as stated fails where both checks would fail: for a key that does not
  resolve, a forwarder outside the target conversation gets NotFound, not the authorization
  error.\<close>

theorem forwardMessage_notfound_first:
  "\<not> isParticipant demoStore ''c1'' ''carol''
   \<and> forwardMessage ''m0'' ''carol'' ''c1'' ''m3'' 3 demoStore = (Inl NotFoundException, demoStore)"
  by (simp add: forwardMessage_def findOneMessage_def isParticipant_def demo_defs)

subsection \<open>Search\<close>















text \<open>A query that is not literal is read as a pattern: \<open>h_llo\<close> finds both messages, and
  is a substring of neither.\<close>

lemma search_wildcard:
  "searchMessages id ''c1'' ''bob'' ''h_llo'' 10 demoStore = Inr [reply, hello]
   \<and> \<not> containsIgnoringCase ''h_llo'' hello"
  by code_simp

text \<open>Outside ASCII the two lower-casings part: the query \<open>U+00C9\<close> (capital E acute) is
  lowered by JavaScript to \<open>U+00E9\<close>, the column keeps the capital, and a message whose
  content ends in that capital is not found.\<close>

lemma search_non_ascii_capital:
  assumes "lw [CHR 0xC3, CHR 0x89] = [CHR 0xC3, CHR 0xA9]"
  shows "searchMessages lw ''c1'' ''bob'' [CHR 0xC3, CHR 0x89] 10
           (demoStore\<lparr> messages := [hello\<lparr> content := Some (''CAF'' @ [CHR 0xC3, CHR 0x89]) \<rparr>] \<rparr>)
         = Inr []"
proof -
  have n: "\<not> isAscii [CHR 0xC3, CHR 0x89]" by code_simp
  have c: "sqlLower (''CAF'' @ [CHR 0xC3, CHR 0x89]) = ''caf'' @ [CHR 0xC3, CHR 0x89]" by code_simp
  have p: "isParticipant demoStore ''c1'' ''bob''" by code_simp
  have k: "\<not> like (CHR ''%'' # [CHR 0xC3, CHR 0xA9] @ [CHR ''%'']) (''caf'' @ [CHR 0xC3, CHR 0x89])"
    by code_simp
  from p have p': "isParticipant (demoStore\<lparr> messages := [hello\<lparr> content := Some (''CAF'' @ [CHR 0xC3, CHR 0x89]) \<rparr>] \<rparr>)
      ''c1'' ''bob''"
    by (simp add: isParticipant_def)
  from n c k p' assms show ?thesis
    by (simp add: searchMessages_def toLowerCase_def contentLike_def Let_def orderDesc_def)
qed

subsection \<open>Fan-out\<close>

lemma sendToUser_connections:
  "sendToUser g p ev d = map (\<lambda>s. Emit (ToSocket s) ev d) (connectionsOf g p)"
  by (simp add: sendToUser_def connectionsOf_def split: option.splits)

lemma broadcast_shape:
  "broadcastToConversation g c msg (Some ids) now =
     Emit (ToRoom (room c)) ''newMessage'' (NewMessagePayload msg) #
     concat (map (\<lambda>p. if p \<noteq> senderId_r msg
                         then map (\<lambda>s. Emit (ToSocket s) ''conversationUpdated'' (notification c msg now))
                                (connectionsOf g p)
                         else []) ids)"
  by (cases ids) (simp_all add: broadcastToConversation_def sendToUser_connections notification_def cong: if_cong)

lemma emitted_Cons:
  "emitted t ev (e # es) = (if emit_target e = t \<and> emit_event e = ev then 1 else 0) + emitted t ev es"
  by (simp add: emitted_def)

lemma emitted_append: "emitted t ev (xs @ ys) = emitted t ev xs + emitted t ev ys"
  by (simp add: emitted_def)

lemma emitted_concat: "emitted t ev (concat xss) = sum_list (map (emitted t ev) xss)"
  by (induction xss) (simp_all add: emitted_append, simp add: emitted_def)

lemma emitted_socket_map:
  "distinct ss \<Longrightarrow>
   emitted (ToSocket s) ev (map (\<lambda>s'. Emit (ToSocket s') ev d) ss) = (if s \<in> set ss then 1 else 0)"
  by (induction ss) (auto simp: emitted_Cons, simp add: emitted_def)

lemma emitted_room_map:
  "emitted (ToRoom r) ev (map (\<lambda>s'. Emit (ToSocket s') ev' d) ss) = 0"
  by (simp add: emitted_def)

lemma registry_distinct:
  "distinct (concat (map snd us)) \<Longrightarrow> map_of us p = Some ss \<Longrightarrow> distinct ss"
  by (induction us) (auto split: if_splits)

lemma registry_disjoint:
  "distinct (concat (map snd us)) \<Longrightarrow> map_of us p = Some ss \<Longrightarrow> map_of us p' = Some ss'
   \<Longrightarrow> p \<noteq> p' \<Longrightarrow> set ss \<inter> set ss' = {}"
proof (induction us)
  case Nil
  then show ?case by simp
next
  case (Cons a us)
  have in_rest: "\<And>k v. map_of us k = Some v \<Longrightarrow> set v \<subseteq> set (concat (map snd us))"
    by (auto dest!: map_of_SomeD) 
  from Cons show ?case
    by (auto split: if_splits dest!: in_rest) blast+
qed

lemma connections_distinct: "registryOk g \<Longrightarrow> distinct (connectionsOf g p)"
  by (auto simp: registryOk_def connectionsOf_def split: option.splits dest: registry_distinct)

lemma connections_disjoint:
  "registryOk g \<Longrightarrow> p \<noteq> p' \<Longrightarrow> s \<in> set (connectionsOf g p) \<Longrightarrow> s \<notin> set (connectionsOf g p')"
proof
  assume ok: "registryOk g" and ne: "p \<noteq> p'" and a: "s \<in> set (connectionsOf g p)"
    and b: "s \<in> set (connectionsOf g p')"
  from a obtain ss where ss: "map_of (userSockets g) p = Some ss" "s \<in> set ss"
    by (cases "map_of (userSockets g) p") (auto simp: connectionsOf_def)
  from b obtain ss' where ss': "map_of (userSockets g) p' = Some ss'" "s \<in> set ss'"
    by (cases "map_of (userSockets g) p'") (auto simp: connectionsOf_def)
  from ok ss ss' ne registry_disjoint[of "userSockets g" p ss p' ss'] show False
    by (auto simp: registryOk_def)
qed

lemma sum_indicator:
  "distinct ids \<Longrightarrow>
   sum_list (map (\<lambda>p. if p = q \<and> A then 1 else 0) ids) = (if q \<in> set ids \<and> A then (1::nat) else 0)"
  by (induction ids) auto

lemma notifications_per_socket:
  assumes ok: "registryOk g" and d: "distinct ids" and s: "s \<in> set (connectionsOf g p)"
  shows "emitted (ToSocket s) ''conversationUpdated'' (broadcastToConversation g c msg (Some ids) now)
         = (if p \<in> set ids \<and> p \<noteq> senderId_r msg then 1 else 0)"
proof -
  let ?F = "\<lambda>p. if p \<noteq> senderId_r msg
                 then map (\<lambda>s. Emit (ToSocket s) ''conversationUpdated'' (notification c msg now))
                        (connectionsOf g p)
                 else []"
  have each: "emitted (ToSocket s) ''conversationUpdated'' (?F p') = (if p' = p \<and> p \<noteq> senderId_r msg then 1 else 0)"
    for p'
  proof (cases "p' = p")
    case True
    with s show ?thesis
      by (simp add: emitted_socket_map[OF connections_distinct[OF ok]]) (simp add: emitted_def)
  next
    case False
    with connections_disjoint[OF ok _ s, of p'] have "s \<notin> set (connectionsOf g p')" by auto
    with False show ?thesis
      by (simp add: emitted_socket_map[OF connections_distinct[OF ok]]) (simp add: emitted_def)
  qed
  have "emitted (ToSocket s) ''conversationUpdated'' (broadcastToConversation g c msg (Some ids) now)
        = sum_list (map (\<lambda>p'. emitted (ToSocket s) ''conversationUpdated'' (?F p')) ids)"
    by (simp add: broadcast_shape emitted_Cons emitted_concat comp_def)
  also have "\<dots> = sum_list (map (\<lambda>p'. if p' = p \<and> p \<noteq> senderId_r msg then 1 else 0) ids)"
    by (simp only: each)
  also have "\<dots> = (if p \<in> set ids \<and> p \<noteq> senderId_r msg then 1 else 0)"
    by (rule sum_indicator[OF d])
  finally show ?thesis .
qed

lemma room_event_once:
  "emitted (ToRoom (room c)) ''newMessage'' (broadcastToConversation g c msg ids now) = 1"
proof (cases ids)
  case None
  then show ?thesis by (simp add: broadcastToConversation_def emitted_def)
next
  case (Some xs)
  have "emitted (ToRoom (room c)) ''newMessage''
          (concat (map (\<lambda>p. if p \<noteq> senderId_r msg
                         then map (\<lambda>s. Emit (ToSocket s) ''conversationUpdated'' (notification c msg now))
                                (connectionsOf g p)
                         else []) xs)) = 0"
    by (induction xs) (simp_all add: emitted_append emitted_def)
  with Some show ?thesis by (simp add: broadcast_shape emitted_Cons)
qed

lemma broadcast_length:
  "length (broadcastToConversation g c msg (Some ids) now)
     = 1 + sum_list (map (\<lambda>p. length (connectionsOf g p)) (filter (\<lambda>p. p \<noteq> senderId_r msg) ids))"
  by (induction ids) (simp_all add: broadcast_shape)

lemma threeSockets_eq:
  "threeSockets = \<lparr> userSockets = [(''alice'', [''s1'']), (''bob'', [''s2'', ''s3''])],
       socketUsers = [(''s1'', ''alice''), (''s2'', ''bob''), (''s3'', ''bob'')] \<rparr>"
  by (simp add: threeSockets_def gw_run_def emptyGateway_def handleConnection_def set_add_def Let_def)

text \<open>
  C4, as amended. \<open>broadcastToConversation\<close> emits the \<open>newMessage\<close> event to the room of the
  conversation exactly once. For distinct participant ids, every socket that a participant
  other than the sender has connected receives the \<open>conversationUpdated\<close> notification exactly
  once, whether or not it joined the room; sockets of the sender and of users outside the
  participant list receive none. The notifications therefore number one per connected socket
  of the other participants: none for a participant who is offline, one per device for a
  participant with several connections.
\<close>

theorem broadcast_fanout:
  assumes "registryOk g" and "distinct ids"
  shows "emitted (ToRoom (room c)) ''newMessage'' (broadcastToConversation g c msg (Some ids) now) = 1
    \<and> (\<forall>p s. s \<in> set (connectionsOf g p) \<longrightarrow>
          emitted (ToSocket s) ''conversationUpdated'' (broadcastToConversation g c msg (Some ids) now)
            = (if p \<in> set ids \<and> p \<noteq> senderId_r msg then 1 else 0))
    \<and> length (broadcastToConversation g c msg (Some ids) now)
        = 1 + sum_list (map (\<lambda>p. length (connectionsOf g p)) (filter (\<lambda>p. p \<noteq> senderId_r msg) ids))"
  using room_event_once[of c g msg "Some ids" now] notifications_per_socket[OF assms, of _ _ c msg now]
    broadcast_length[of g c msg ids now]
  by blast

theorem broadcast_fanout_witness:
  "registryOk threeSockets \<and> distinct [''alice'', ''bob'']
   \<and> ''s2'' \<in> set (connectionsOf threeSockets ''bob'')
   \<and> ''s1'' \<in> set (connectionsOf threeSockets ''alice'')
   \<and> emitted (ToRoom (room ''c1'')) ''newMessage''
        (broadcastToConversation threeSockets ''c1'' (toMessageResponse hello) (Some [''alice'', ''bob'']) 3) = 1
   \<and> emitted (ToSocket ''s2'') ''conversationUpdated''
        (broadcastToConversation threeSockets ''c1'' (toMessageResponse hello) (Some [''alice'', ''bob'']) 3) = 1
   \<and> emitted (ToSocket ''s1'') ''conversationUpdated''
        (broadcastToConversation threeSockets ''c1'' (toMessageResponse hello) (Some [''alice'', ''bob'']) 3) = 0
   \<and> length (broadcastToConversation threeSockets ''c1'' (toMessageResponse hello) (Some [''alice'', ''bob'']) 3) = 3"
proof -
  have ok: "registryOk threeSockets"
    by (simp add: registryOk_def threeSockets_eq)
  have d: "distinct [''alice'', ''bob'']" by simp
  have b: "''s2'' \<in> set (connectionsOf threeSockets ''bob'')"
    by (simp add: connectionsOf_def threeSockets_eq)
  have a: "''s1'' \<in> set (connectionsOf threeSockets ''alice'')"
    by (simp add: connectionsOf_def threeSockets_eq)
  have s: "senderId_r (toMessageResponse hello) = ''alice''"
    by (simp add: toMessageResponse_def hello_def)
  have n: "sum_list (map (\<lambda>p. length (connectionsOf threeSockets p))
             (filter (\<lambda>p. p \<noteq> senderId_r (toMessageResponse hello)) [''alice'', ''bob''])) = 2"
    by (simp add: s connectionsOf_def threeSockets_eq)
  from broadcast_fanout[OF ok d, of "''c1''" "toMessageResponse hello" 3] a b s n
  show ?thesis using ok by auto
qed

text \<open>The claim C4 as stated fails where a participant is offline or on two devices: with
  nobody connected the broadcast consists of the room event alone, so Bob gets no notification;
  with Bob on two devices two notifications are emitted for him.\<close>

theorem fanout_follows_connections:
  "broadcastToConversation emptyGateway ''c1'' (toMessageResponse hello) (Some [''alice'', ''bob'']) 3
     = [Emit (ToRoom ''conversation:c1'') ''newMessage'' (NewMessagePayload (toMessageResponse hello))]
   \<and> map emit_target (broadcastToConversation threeSockets ''c1'' (toMessageResponse hello)
          (Some [''alice'', ''bob'']) 3)
     = [ToRoom ''conversation:c1'', ToSocket ''s2'', ToSocket ''s3'']"
  by (simp add: broadcastToConversation_def sendToUser_def room_def toMessageResponse_def hello_def
      emptyGateway_def threeSockets_eq)

end
